theory Spec2Isabelle
  imports Complex_Main
begin

section \<open>JavaScript numbers\<close>

text \<open>
  A JavaScript number is a finite value, one of the two infinities, or NaN; the sign of
  zero is not represented.  The comparison operators and the arithmetic follow IEEE-754 on
  the special values: every comparison with NaN is false (so \<open>!==\<close> with NaN is true),
  and NaN propagates through arithmetic.  The operations \<open>js_add\<close>, \<open>js_sub\<close>,
  \<open>js_mul\<close> and \<open>js_div\<close> give the exact result on finite values; rounding is added
  to them below.
\<close>

datatype jsnum = NaN | NInf | Fin real | PInf

fun isNaN :: "jsnum \<Rightarrow> bool" where
  "isNaN NaN = True"
| "isNaN _ = False"

fun js_lt :: "jsnum \<Rightarrow> jsnum \<Rightarrow> bool" where
  "js_lt NaN _ = False"
| "js_lt _ NaN = False"
| "js_lt _ NInf = False"
| "js_lt NInf _ = True"
| "js_lt PInf _ = False"
| "js_lt (Fin a) (Fin b) = (a < b)"
| "js_lt (Fin a) PInf = True"

fun js_eq :: "jsnum \<Rightarrow> jsnum \<Rightarrow> bool" where
  "js_eq NaN _ = False"
| "js_eq _ NaN = False"
| "js_eq a b = (a = b)"

definition js_neq :: "jsnum \<Rightarrow> jsnum \<Rightarrow> bool" where
  "js_neq a b = (\<not> js_eq a b)"

definition js_le :: "jsnum \<Rightarrow> jsnum \<Rightarrow> bool" where
  "js_le a b = (js_lt a b \<or> js_eq a b)"

definition js_gt :: "jsnum \<Rightarrow> jsnum \<Rightarrow> bool" where
  "js_gt a b = js_lt b a"

fun js_neg :: "jsnum \<Rightarrow> jsnum" where
  "js_neg NaN = NaN"
| "js_neg NInf = PInf"
| "js_neg (Fin a) = Fin (- a)"
| "js_neg PInf = NInf"

fun js_add :: "jsnum \<Rightarrow> jsnum \<Rightarrow> jsnum" where
  "js_add NaN _ = NaN"
| "js_add _ NaN = NaN"
| "js_add (Fin a) (Fin b) = Fin (a + b)"
| "js_add (Fin a) b = b"
| "js_add a (Fin b) = a"
| "js_add PInf PInf = PInf"
| "js_add NInf NInf = NInf"
| "js_add PInf NInf = NaN"
| "js_add NInf PInf = NaN"

definition js_sub :: "jsnum \<Rightarrow> jsnum \<Rightarrow> jsnum" where
  "js_sub a b = js_add a (js_neg b)"

text \<open>The sign of a non-NaN number: \<open>-1\<close>, \<open>0\<close> or \<open>1\<close>.\<close>

fun js_sign :: "jsnum \<Rightarrow> int" where
  "js_sign NaN = 0"
| "js_sign NInf = - 1"
| "js_sign PInf = 1"
| "js_sign (Fin a) = (if a < 0 then - 1 else if a = 0 then 0 else 1)"

definition signedInf :: "int \<Rightarrow> jsnum" where
  "signedInf s = (if s = 0 then NaN else if s < 0 then NInf else PInf)"

fun js_mul :: "jsnum \<Rightarrow> jsnum \<Rightarrow> jsnum" where
  "js_mul NaN _ = NaN"
| "js_mul _ NaN = NaN"
| "js_mul (Fin a) (Fin b) = Fin (a * b)"
| "js_mul a b = signedInf (js_sign a * js_sign b)"

text \<open>
  Division.  A finite value divided by zero gives an infinity of the dividend's sign (the
  zero taken as positive) and \<open>0 / 0\<close> gives NaN; both divisions in the program are
  guarded against a zero divisor or divide by the constant 60.
\<close>

fun js_div :: "jsnum \<Rightarrow> jsnum \<Rightarrow> jsnum" where
  "js_div NaN _ = NaN"
| "js_div _ NaN = NaN"
| "js_div (Fin a) (Fin b) = (if b = 0 then signedInf (js_sign (Fin a)) else Fin (a / b))"
| "js_div (Fin a) _ = Fin 0"
| "js_div a (Fin b) = signedInf (js_sign a * (if b < 0 then - 1 else 1))"
| "js_div _ _ = NaN"

text \<open>
  Rounding.  A double operation returns the exact result rounded to a double: a finite
  value, or an infinity on overflow.  The rounding function \<open>rnd\<close>, from the exact real
  to the number stored, is a parameter of the model of the profile builder, whose properties
  depend on the order of computed times; nothing is assumed of it in the definitions, so
  what is proved of the builder without a hypothesis on \<open>rnd\<close> holds for every rounding.
  The sensor processor is written with the unrounded operations: its properties are stated
  in the program's own expressions.
\<close>

definition fl :: "(real \<Rightarrow> jsnum) \<Rightarrow> jsnum \<Rightarrow> jsnum" where
  "fl rnd v = (case v of Fin x \<Rightarrow> rnd x | _ \<Rightarrow> v)"

definition fl_add :: "(real \<Rightarrow> jsnum) \<Rightarrow> jsnum \<Rightarrow> jsnum \<Rightarrow> jsnum" where
  "fl_add rnd a b = fl rnd (js_add a b)"

definition fl_mul :: "(real \<Rightarrow> jsnum) \<Rightarrow> jsnum \<Rightarrow> jsnum \<Rightarrow> jsnum" where
  "fl_mul rnd a b = fl rnd (js_mul a b)"

definition fl_div :: "(real \<Rightarrow> jsnum) \<Rightarrow> jsnum \<Rightarrow> jsnum \<Rightarrow> jsnum" where
  "fl_div rnd a b = fl rnd (js_div a b)"

fun js_abs :: "jsnum \<Rightarrow> jsnum" where
  "js_abs NaN = NaN"
| "js_abs NInf = PInf"
| "js_abs (Fin a) = Fin \<bar>a\<bar>"
| "js_abs PInf = PInf"

text \<open>
  A JavaScript value as far as \<open>typeof v === 'number'\<close> can tell values apart;
  \<open>numberOr v d\<close> is \<open>typeof v === 'number' ? v : d\<close>.
\<close>

datatype jsval = JUndefined | JNull | JBool bool | JNumber jsnum | JString string

fun typeofNumber :: "jsval \<Rightarrow> bool" where
  "typeofNumber (JNumber n) = True"
| "typeofNumber _ = False"

fun numberOr :: "jsval \<Rightarrow> jsnum \<Rightarrow> jsnum" where
  "numberOr (JNumber n) d = n"
| "numberOr _ d = d"

section \<open>Data model of \<open>gasCalculations.js\<close>\<close>

record flowStep =
  targetGasFlow :: jsnum
  durationSeconds :: jsnum

record concPoint =
  time_min :: jsnum
  conc :: jsnum

record exposureEvent =
  startTime :: jsnum
  concentration :: jsnum
  endTime :: jsnum

record gasConfig =
  totalFlowrate :: jsval
  gasConcCyl2 :: jsval

section \<open>\<open>calculateGasConcVsTime\<close>\<close>

text \<open>
  \<open>config && typeof config.totalFlowrate === 'number' ? config.totalFlowrate : 500\<close>, and
  the same for \<open>gasConcCyl2\<close> with default 0.  An absent (falsy) configuration is
  \<open>None\<close>.
\<close>

definition totalFlowrateOf :: "gasConfig option \<Rightarrow> jsnum" where
  "totalFlowrateOf config =
     (case config of None \<Rightarrow> Fin 500 | Some c \<Rightarrow> numberOr (totalFlowrate c) (Fin 500))"

definition gasConcCyl2Of :: "gasConfig option \<Rightarrow> jsnum" where
  "gasConcCyl2Of config =
     (case config of None \<Rightarrow> Fin 0 | Some c \<Rightarrow> numberOr (gasConcCyl2 c) (Fin 0))"

definition oneSecondInMinutes :: "(real \<Rightarrow> jsnum) \<Rightarrow> jsnum" where
  "oneSecondInMinutes rnd = fl_div rnd (Fin 1) (Fin 60)"

text \<open>The variables the loop over the flow steps updates.\<close>

record profileState =
  calculatedProfile :: "concPoint list"
  currentTimeSeconds :: jsnum
  currentConcentration :: jsnum

text \<open>Concentration of a step (the \<open>totalFlowrate === 0\<close> test and its two branches).\<close>

definition stepConcentration :: "(real \<Rightarrow> jsnum) \<Rightarrow> jsnum \<Rightarrow> jsnum \<Rightarrow> flowStep \<Rightarrow> jsnum" where
  "stepConcentration rnd tf gc step =
     (if js_eq tf (Fin 0)
      then (if js_gt gc (Fin 0) \<and> js_gt (targetGasFlow step) (Fin 0) then PInf else Fin 0)
      else fl_div rnd (fl_mul rnd gc (targetGasFlow step)) tf)"

text \<open>
  Point 1: the end of the previous concentration period, with its outer test and the inner
  guard, as written in the source.
\<close>

definition pushPoint1 :: "(real \<Rightarrow> jsnum) \<Rightarrow> concPoint list \<Rightarrow> jsnum \<Rightarrow> jsnum
                           \<Rightarrow> concPoint list" where
  "pushPoint1 rnd prof t previousConcentration =
     (if prof = []
         \<or> js_lt (time_min (last prof)) (fl_div rnd t (Fin 60))
         \<or> (js_eq (time_min (last prof)) (fl_div rnd t (Fin 60))
             \<and> js_neq (conc (last prof)) previousConcentration)
      then (if prof \<noteq> [] \<and> js_eq (time_min (last prof)) (fl_div rnd t (Fin 60))
                \<and> js_eq (conc (last prof)) previousConcentration
            then prof
            else prof @ [\<lparr>time_min = fl_div rnd t (Fin 60), conc = previousConcentration\<rparr>])
      else prof)"

text \<open>Point 2: the start of the new concentration period, one second later.\<close>

definition pushPoint2 :: "(real \<Rightarrow> jsnum) \<Rightarrow> concPoint list \<Rightarrow> jsnum \<Rightarrow> jsnum \<Rightarrow> jsnum
                           \<Rightarrow> concPoint list" where
  "pushPoint2 rnd prof t previousConcentration newConcentration =
     (if js_neq newConcentration previousConcentration
      then prof @ [\<lparr>time_min = fl_add rnd (fl_div rnd t (Fin 60)) (oneSecondInMinutes rnd),
                    conc = newConcentration\<rparr>]
      else if js_neq (conc (last prof)) newConcentration
      then prof @ [\<lparr>time_min = fl_add rnd (fl_div rnd t (Fin 60)) (oneSecondInMinutes rnd),
                    conc = newConcentration\<rparr>]
      else prof)"

text \<open>One iteration of the loop over \<open>gasFlowData\<close>.\<close>

definition profileStep :: "(real \<Rightarrow> jsnum) \<Rightarrow> jsnum \<Rightarrow> jsnum \<Rightarrow> profileState \<Rightarrow> flowStep
                            \<Rightarrow> profileState" where
  "profileStep rnd tf gc st step =
     (let previousConcentration = currentConcentration st;
          newConcentration = stepConcentration rnd tf gc step;
          p1 = pushPoint1 rnd (calculatedProfile st) (currentTimeSeconds st)
                 previousConcentration;
          p2 = pushPoint2 rnd p1 (currentTimeSeconds st) previousConcentration
                 newConcentration;
          t' = fl_add rnd (currentTimeSeconds st) (durationSeconds step)
      in \<lparr>calculatedProfile =
            p2 @ [\<lparr>time_min = fl_div rnd t' (Fin 60), conc = newConcentration\<rparr>],
          currentTimeSeconds = t',
          currentConcentration = newConcentration\<rparr>)"

fun profileLoop :: "(real \<Rightarrow> jsnum) \<Rightarrow> jsnum \<Rightarrow> jsnum \<Rightarrow> flowStep list \<Rightarrow> profileState
                       \<Rightarrow> profileState" where
  "profileLoop rnd tf gc [] st = st"
| "profileLoop rnd tf gc (step # steps) st =
     profileLoop rnd tf gc steps (profileStep rnd tf gc st step)"

text \<open>
  The deduplication pass: point \<open>k\<close> is kept when it differs (\<open>!==\<close>) from point
  \<open>k - 1\<close> of the undeduplicated list in time or in concentration.
\<close>

fun dedupAfter :: "concPoint \<Rightarrow> concPoint list \<Rightarrow> concPoint list" where
  "dedupAfter prev [] = []"
| "dedupAfter prev (p # ps) =
     (if js_neq (time_min p) (time_min prev) \<or> js_neq (conc p) (conc prev)
      then p # dedupAfter p ps
      else dedupAfter p ps)"

fun deduplicate :: "concPoint list \<Rightarrow> concPoint list" where
  "deduplicate [] = []"
| "deduplicate (p # ps) = p # dedupAfter p ps"

text \<open>The closing block that makes sure the profile starts at time 0, concentration 0.\<close>

definition ensureStart :: "concPoint list \<Rightarrow> concPoint list" where
  "ensureStart finalProfile =
     (if finalProfile = [] \<or> js_neq (time_min (hd finalProfile)) (Fin 0)
          \<or> js_neq (conc (hd finalProfile)) (Fin 0)
      then (if finalProfile \<noteq> [] \<and> js_eq (time_min (hd finalProfile)) (Fin 0)
                \<and> js_eq (conc (hd finalProfile)) (Fin 0)
            then finalProfile
            else (case finalProfile of
                    [] \<Rightarrow> [\<lparr>time_min = Fin 0, conc = Fin 0\<rparr>]
                  | p # ps \<Rightarrow>
                      if js_eq (Fin 0) (time_min p) \<and> js_eq (Fin 0) (conc p)
                      then p # ps
                      else \<lparr>time_min = Fin 0, conc = Fin 0\<rparr> # p # ps))
      else finalProfile)"

text \<open>
  The whole function.  A missing (\<open>null\<close>, \<open>undefined\<close>) \<open>gasFlowData\<close> is \<open>None\<close>.
\<close>

definition initialState :: profileState where
  "initialState = \<lparr>calculatedProfile = [\<lparr>time_min = Fin 0, conc = Fin 0\<rparr>],
                   currentTimeSeconds = Fin 0,
                   currentConcentration = Fin 0\<rparr>"

definition calculateGasConcVsTime :: "(real \<Rightarrow> jsnum) \<Rightarrow> flowStep list option
                                       \<Rightarrow> gasConfig option \<Rightarrow> concPoint list" where
  "calculateGasConcVsTime rnd gasFlowData config =
     (let tf = totalFlowrateOf config; gc = gasConcCyl2Of config
      in case gasFlowData of
           None \<Rightarrow> [\<lparr>time_min = Fin 0, conc = Fin 0\<rparr>]
         | Some [] \<Rightarrow> [\<lparr>time_min = Fin 0, conc = Fin 0\<rparr>]
         | Some steps \<Rightarrow>
             ensureStart
               (deduplicate (calculatedProfile (profileLoop rnd tf gc steps initialState))))"

section \<open>\<open>identifyGasExposureEvents\<close>\<close>

definition newEvent :: "concPoint \<Rightarrow> exposureEvent" where
  "newEvent point = \<lparr>startTime = time_min point, concentration = conc point,
                     endTime = time_min point\<rparr>"

text \<open>
  One iteration of the scan: the state is the list of events pushed so far and the active
  event (\<open>None\<close> for \<open>null\<close>).
\<close>

fun eventStep :: "exposureEvent list \<times> exposureEvent option \<Rightarrow> concPoint
                    \<Rightarrow> exposureEvent list \<times> exposureEvent option" where
  "eventStep (events, None) point =
     (if js_gt (conc point) (Fin 0) then (events, Some (newEvent point)) else (events, None))"
| "eventStep (events, Some a) point =
     (if js_eq (conc point) (concentration a) \<and> js_gt (time_min point) (endTime a)
      then (events, Some (a\<lparr>endTime := time_min point\<rparr>))
      else if js_neq (conc point) (concentration a) \<or> js_le (time_min point) (endTime a)
      then (let events' = (if js_gt (endTime a) (startTime a) then events @ [a] else events)
            in if js_gt (conc point) (Fin 0)
               then (events', Some (newEvent point))
               else (events', None))
      else (events, Some a))"

fun eventLoop :: "concPoint list \<Rightarrow> exposureEvent list \<times> exposureEvent option
                    \<Rightarrow> exposureEvent list \<times> exposureEvent option" where
  "eventLoop [] st = st"
| "eventLoop (point # points) st = eventLoop points (eventStep st point)"

text \<open>The block after the loop, with its guard against pushing the same event twice.\<close>

fun finishEvents :: "exposureEvent list \<times> exposureEvent option \<Rightarrow> exposureEvent list" where
  "finishEvents (events, None) = events"
| "finishEvents (events, Some a) =
     (if js_gt (endTime a) (startTime a)
      then (let alreadyAdded =
                  (events \<noteq> []
                   \<and> js_eq (startTime (last events)) (startTime a)
                   \<and> js_eq (concentration (last events)) (concentration a)
                   \<and> js_eq (endTime (last events)) (endTime a))
            in if alreadyAdded then events else events @ [a])
      else events)"

definition identifyGasExposureEvents :: "concPoint list option \<Rightarrow> exposureEvent list" where
  "identifyGasExposureEvents gasConcProfile =
     (case gasConcProfile of
        None \<Rightarrow> []
      | Some points \<Rightarrow> finishEvents (eventLoop points ([], None)))"

section \<open>\<open>interpolateGasConcentration\<close>\<close>

fun holdLoop :: "jsnum \<Rightarrow> concPoint list \<Rightarrow> jsnum \<Rightarrow> jsnum" where
  "holdLoop resultConc [] t = resultConc"
| "holdLoop resultConc (p # ps) t =
     (if js_le (time_min p) t then holdLoop (conc p) ps t else resultConc)"

definition interpolateGasConcentration :: "concPoint list option \<Rightarrow> jsnum \<Rightarrow> jsnum" where
  "interpolateGasConcentration concProfile targetTimeMin =
     (if isNaN targetTimeMin then NaN
      else case concProfile of
             None \<Rightarrow> NaN
           | Some [] \<Rightarrow> NaN
           | Some (p0 # ps) \<Rightarrow>
               if js_lt targetTimeMin (time_min p0) then conc p0
               else holdLoop (conc p0) (p0 # ps) targetTimeMin)"

section \<open>\<open>processAllTimeSeriesFiles\<close>\<close>

text \<open>
  A parsed CSV row is an array of strings.  The two parsers the function calls are
  parameters of the model: \<open>dateMs s\<close> stands for \<open>parseCustomDateTime(s)\<close> followed by
  \<open>getTime()\<close> (\<open>None\<close> when the parse returns \<open>null\<close> or an invalid date, for which
  the source takes NaN; otherwise the integral number of milliseconds), and \<open>parseFloat\<close>
  for the built-in of that name.
\<close>

type_synonym csvRow = "string list"

record sensorReading =
  original_time_s :: string
  time_s :: jsnum
  time_min_row :: jsnum
  impedance :: jsnum
  phase :: jsnum
  signal :: jsnum
  gas_concentration :: jsnum

definition timeColIdx :: nat where "timeColIdx = 0"
definition impedanceColIdx :: nat where "impedanceColIdx = 7"
definition phaseColIdx :: nat where "phaseColIdx = 8"

definition minRequiredCols :: nat where
  "minRequiredCols = max (max timeColIdx impedanceColIdx) phaseColIdx + 1"

definition msOf :: "int option \<Rightarrow> jsnum" where
  "msOf d = (case d of None \<Rightarrow> NaN | Some ms \<Rightarrow> Fin (of_int ms))"

text \<open>The callback of \<open>rawDataArray.map\<close>: one row to one reading.\<close>

definition parseRow :: "(string \<Rightarrow> int option) \<Rightarrow> (string \<Rightarrow> jsnum) \<Rightarrow> jsnum \<Rightarrow> csvRow
                          \<Rightarrow> sensorReading" where
  "parseRow dateMs parseFloat currentFileT0Milliseconds row =
     (if length row < minRequiredCols
      then \<lparr>original_time_s = (if length row > timeColIdx then row ! timeColIdx
                                else ''Invalid Row''),
            time_s = NaN, time_min_row = NaN, impedance = NaN, phase = NaN, signal = NaN,
            gas_concentration = NaN\<rparr>
      else (let currentDateString = row ! timeColIdx;
                currentMilliseconds = msOf (dateMs currentDateString);
                relative_time_s =
                  (if \<not> isNaN currentMilliseconds \<and> \<not> isNaN currentFileT0Milliseconds
                   then js_div (js_sub currentMilliseconds currentFileT0Milliseconds) (Fin 1000)
                   else NaN)
            in \<lparr>original_time_s = currentDateString,
                time_s = relative_time_s,
                time_min_row = js_div relative_time_s (Fin 60),
                impedance = parseFloat (row ! impedanceColIdx),
                phase = parseFloat (row ! phaseColIdx),
                signal = NaN,
                gas_concentration = NaN\<rparr>))"

text \<open>
  \<open>processedTable\<close> of a file whose first row passed the column check: the zero time is
  the timestamp of the first row.
\<close>

definition processedTable :: "(string \<Rightarrow> int option) \<Rightarrow> (string \<Rightarrow> jsnum) \<Rightarrow> csvRow list
                                \<Rightarrow> sensorReading list" where
  "processedTable dateMs parseFloat rawDataArray =
     (case rawDataArray of
        [] \<Rightarrow> []
      | row0 # _ \<Rightarrow>
          map (parseRow dateMs parseFloat (msOf (dateMs (row0 ! timeColIdx)))) rawDataArray)"

text \<open>
  The index of the baseline row (\<open>None\<close> for \<open>-1\<close>).  The source filters the row objects
  and finds the last of them again by identity; every row is an object of its own, so the
  model filters the positions.
\<close>

definition refIdx :: "jsnum \<Rightarrow> sensorReading list \<Rightarrow> nat option" where
  "refIdx refTimeMinutes table =
     (let suitablePointsForRef =
            filter (\<lambda>i. \<not> isNaN (time_min_row (table ! i))
                         \<and> js_le (time_min_row (table ! i)) refTimeMinutes)
                   [0..<length table]
      in if suitablePointsForRef \<noteq> [] then Some (last suitablePointsForRef)
         else if table \<noteq> [] \<and> \<not> isNaN (time_min_row (hd table)) then Some 0
         else None)"

definition imp_ref :: "jsnum \<Rightarrow> sensorReading list \<Rightarrow> jsnum" where
  "imp_ref refTimeMinutes table =
     (case refIdx refTimeMinutes table of
        None \<Rightarrow> NaN
      | Some i \<Rightarrow>
          if i < length table \<and> \<not> isNaN (impedance (table ! i))
          then impedance (table ! i) else NaN)"

text \<open>The callback of \<open>processedTable.forEach\<close>, which updates a row in place.\<close>

definition finishRow :: "jsnum \<Rightarrow> bool \<Rightarrow> concPoint list \<Rightarrow> sensorReading \<Rightarrow> sensorReading" where
  "finishRow impRef gasConcAvailable gasConcProfile row =
     (let signal1 =
            (if \<not> isNaN impRef \<and> js_neq impRef (Fin 0) \<and> \<not> isNaN (impedance row)
             then js_mul (js_div (js_sub (impedance row) impRef) impRef) (Fin 100)
             else NaN);
          impedance2 = (if js_gt (impedance row) (Fin 1000000000000) then NaN
                        else impedance row);
          signal2 = (if js_gt (js_abs signal1) (Fin 10000) then NaN else signal1);
          gas = (if gasConcAvailable \<and> gasConcProfile \<noteq> [] \<and> \<not> isNaN (time_min_row row)
                 then interpolateGasConcentration (Some gasConcProfile) (time_min_row row)
                 else NaN)
      in row\<lparr>signal := signal2, impedance := impedance2, gas_concentration := gas\<rparr>)"

text \<open>
  One file.  \<open>rawDataArray\<close> is \<open>None\<close> when \<open>parseCsvFile\<close> rejects or yields nothing; the
  result is \<open>None\<close> when the file is skipped (the \<open>continue\<close> statements).
\<close>

definition processFile :: "(string \<Rightarrow> int option) \<Rightarrow> (string \<Rightarrow> jsnum) \<Rightarrow> jsnum
                             \<Rightarrow> concPoint list \<Rightarrow> bool \<Rightarrow> csvRow list option
                             \<Rightarrow> sensorReading list option" where
  "processFile dateMs parseFloat refTimeMinutes gasConcProfile gasConcAvailable rawDataArray =
     (case rawDataArray of
        None \<Rightarrow> None
      | Some [] \<Rightarrow> None
      | Some (row0 # rows) \<Rightarrow>
          if length row0 < minRequiredCols then None
          else (let table = processedTable dateMs parseFloat (row0 # rows)
                in Some (map (finishRow (imp_ref refTimeMinutes table) gasConcAvailable
                                gasConcProfile) table)))"

record fileItem =
  effectiveFileName :: string
  parsedCsv :: "csvRow list option"

record sensorTable =
  fileName :: string
  data :: "sensorReading list"

text \<open>
  The loop over the files; the log and the progress callback, which do not reach the
  result, are left out, as are the fields of a table copied from the file item.
\<close>

fun processAllTimeSeriesFiles :: "(string \<Rightarrow> int option) \<Rightarrow> (string \<Rightarrow> jsnum) \<Rightarrow> jsnum
                                    \<Rightarrow> concPoint list \<Rightarrow> bool \<Rightarrow> fileItem list
                                    \<Rightarrow> sensorTable list" where
  "processAllTimeSeriesFiles dateMs parseFloat refTimeMinutes gasConcProfile gasConcAvailable [] = []"
| "processAllTimeSeriesFiles dateMs parseFloat refTimeMinutes gasConcProfile gasConcAvailable
     (fileItem # fileItems) =
     (case processFile dateMs parseFloat refTimeMinutes gasConcProfile gasConcAvailable
             (parsedCsv fileItem) of
        None \<Rightarrow> processAllTimeSeriesFiles dateMs parseFloat refTimeMinutes gasConcProfile
                  gasConcAvailable fileItems
      | Some table \<Rightarrow>
          \<lparr>fileName = effectiveFileName fileItem, data = table\<rparr>
          # processAllTimeSeriesFiles dateMs parseFloat refTimeMinutes gasConcProfile
              gasConcAvailable fileItems)"

section \<open>Notions used to state the properties\<close>

subsection \<open>Profiles\<close>

text \<open>Two points are the same when both fields are equal under \<open>===\<close>.\<close>

definition samePoint :: "concPoint \<Rightarrow> concPoint \<Rightarrow> bool" where
  "samePoint p q = (js_eq (time_min p) (time_min q) \<and> js_eq (conc p) (conc q))"

definition startsAtOrigin :: "concPoint list \<Rightarrow> bool" where
  "startsAtOrigin prof = (prof \<noteq> [] \<and> hd prof = \<lparr>time_min = Fin 0, conc = Fin 0\<rparr>)"

definition nonDecreasingTimes :: "concPoint list \<Rightarrow> bool" where
  "nonDecreasingTimes prof = successively (\<lambda>p q. js_le (time_min p) (time_min q)) prof"

definition noConsecutiveDuplicates :: "concPoint list \<Rightarrow> bool" where
  "noConsecutiveDuplicates prof = successively (\<lambda>p q. \<not> samePoint p q) prof"

text \<open>The steps the loop visits: none when \<open>gasFlowData\<close> is missing.\<close>

definition stepsOf :: "flowStep list option \<Rightarrow> flowStep list" where
  "stepsOf gasFlowData = (case gasFlowData of None \<Rightarrow> [] | Some steps \<Rightarrow> steps)"

subsection \<open>Rounding and the schedule\<close>

text \<open>
  What the properties of the computed times need of the rounding: zero is exact, rounding
  is monotone, a rounded value rounds to itself, and a finite result at or above the
  smallest normal double has relative error at most \<open>eps\<close>.  IEEE round-to-nearest on
  doubles has these properties with \<open>eps = 1 / 2 ^ 53\<close>; the exact arithmetic \<open>Fin\<close> has
  them with \<open>eps = 0\<close>.
\<close>

definition minNormal :: real where
  "minNormal = 1 / 2 ^ 1022"

definition correctRounding :: "real \<Rightarrow> (real \<Rightarrow> jsnum) \<Rightarrow> bool" where
  "correctRounding eps rnd =
     (rnd 0 = Fin 0
      \<and> (\<forall>x y. x \<le> y \<longrightarrow> js_le (rnd x) (rnd y))
      \<and> (\<forall>x r. rnd x = Fin r \<longrightarrow> rnd r = Fin r)
      \<and> (\<forall>x r. minNormal \<le> x \<longrightarrow> rnd x = Fin r
             \<longrightarrow> (1 - eps) * x \<le> r \<and> r \<le> (1 + eps) * x))"

text \<open>
  The values \<open>currentTimeSeconds\<close> takes after each step, from a given start; a duration
  of at least two seconds; and a schedule that is regular for a rounding of relative error
  \<open>eps\<close>: every step lasts at least two seconds and the running time never exceeds
  \<open>tmax\<close>, where \<open>2 * eps * tmax + 3 * eps \<le> 1\<close> (for doubles, \<open>tmax\<close> up to
  \<open>2 ^ 52 - 2\<close> seconds).
\<close>

fun runningTimes :: "(real \<Rightarrow> jsnum) \<Rightarrow> jsnum \<Rightarrow> flowStep list \<Rightarrow> jsnum list" where
  "runningTimes rnd t [] = []"
| "runningTimes rnd t (step # steps) =
     fl_add rnd t (durationSeconds step)
     # runningTimes rnd (fl_add rnd t (durationSeconds step)) steps"

definition atLeastTwoSeconds :: "jsnum \<Rightarrow> bool" where
  "atLeastTwoSeconds d = (case d of Fin r \<Rightarrow> 2 \<le> r | _ \<Rightarrow> False)"

definition regularFrom :: "real \<Rightarrow> real \<Rightarrow> (real \<Rightarrow> jsnum) \<Rightarrow> jsnum \<Rightarrow> flowStep list \<Rightarrow> bool" where
  "regularFrom eps tmax rnd t steps =
     (correctRounding eps rnd \<and> 0 \<le> eps \<and> 2 * eps * tmax + 3 * eps \<le> 1
      \<and> (\<forall>s\<in>set steps. atLeastTwoSeconds (durationSeconds s))
      \<and> (\<forall>u\<in>set (runningTimes rnd t steps). js_le u (Fin tmax)))"

definition regularSchedule :: "real \<Rightarrow> real \<Rightarrow> (real \<Rightarrow> jsnum) \<Rightarrow> flowStep list \<Rightarrow> bool" where
  "regularSchedule eps tmax rnd steps = regularFrom eps tmax rnd (Fin 0) steps"

subsection \<open>Invariants of the profile loop\<close>

text \<open>
  The points pushed so far are sorted by time, none is later than a bound, and points of
  equal time have equal concentration.  The invariant of the loop on a regular schedule:
  the running time is zero or at least one second, is a rounded value within the bound, and
  the last point pushed holds the running time in minutes and the running concentration.
\<close>

definition sortedTimes :: "concPoint list \<Rightarrow> bool" where
  "sortedTimes prof = sorted_wrt (\<lambda>p q. js_le (time_min p) (time_min q)) prof"

definition boundedBy :: "concPoint list \<Rightarrow> jsnum \<Rightarrow> bool" where
  "boundedBy prof t = (\<forall>p\<in>set prof. js_le (time_min p) t)"

definition functionalTimes :: "concPoint list \<Rightarrow> bool" where
  "functionalTimes prof =
     (\<forall>p\<in>set prof. \<forall>q\<in>set prof. time_min p = time_min q \<longrightarrow> conc p = conc q)"

definition loopInv :: "(real \<Rightarrow> jsnum) \<Rightarrow> real \<Rightarrow> profileState \<Rightarrow> bool" where
  "loopInv rnd tmax st =
     (\<exists>\<tau>. currentTimeSeconds st = Fin \<tau> \<and> (\<tau> = 0 \<or> 1 \<le> \<tau>) \<and> \<tau> \<le> tmax \<and> rnd \<tau> = Fin \<tau>
          \<and> calculatedProfile st \<noteq> []
          \<and> last (calculatedProfile st)
              = \<lparr>time_min = fl_div rnd (Fin \<tau>) (Fin 60), conc = currentConcentration st\<rparr>
          \<and> sortedTimes (calculatedProfile st)
          \<and> boundedBy (calculatedProfile st) (fl_div rnd (Fin \<tau>) (Fin 60))
          \<and> functionalTimes (calculatedProfile st))"

subsection \<open>The previous-value hold of the specification\<close>

text \<open>
  A profile is time-ordered when every time is a number and the times do not decrease.
  \<open>previousValueHold\<close> follows the words of the specification; it is \<open>None\<close> where
  they name no value (no point at or before the query).
\<close>

definition timeOrdered :: "concPoint list \<Rightarrow> bool" where
  "timeOrdered prof = ((\<forall>p\<in>set prof. \<not> isNaN (time_min p)) \<and> sortedTimes prof)"

definition previousValueHold :: "concPoint list \<Rightarrow> jsnum \<Rightarrow> jsnum option" where
  "previousValueHold prof t =
     (if isNaN t \<or> prof = [] then Some NaN
      else if js_lt t (time_min (hd prof)) then Some (conc (hd prof))
      else (case filter (\<lambda>p. js_le (time_min p) t) prof of
              [] \<Rightarrow> None
            | qs \<Rightarrow> Some (conc (last qs))))"

subsection \<open>Events\<close>

definition positiveDuration :: "exposureEvent \<Rightarrow> bool" where
  "positiveDuration e = js_gt (endTime e) (startTime e)"

subsection \<open>Sensor tables\<close>

text \<open>
  The baseline row in the words of the specification: the last row whose time is defined
  and at most the reference time or, when there is none, the first row whose time is
  defined.  A reading is fully undefined when each of its numeric fields is NaN.
\<close>

definition baselineRow :: "jsnum \<Rightarrow> sensorReading list \<Rightarrow> sensorReading option" where
  "baselineRow refTimeMinutes rows =
     (case filter (\<lambda>r. \<not> isNaN (time_min_row r) \<and> js_le (time_min_row r) refTimeMinutes) rows of
        [] \<Rightarrow> (case filter (\<lambda>r. \<not> isNaN (time_min_row r)) rows of
                 [] \<Rightarrow> None
               | r # _ \<Rightarrow> Some r)
      | qs \<Rightarrow> Some (last qs))"

text \<open>
  The signal as the callback assigns it from the reference impedance and the impedance of
  the row, before the two outlier tests.
\<close>

definition assignedSignal :: "jsnum \<Rightarrow> jsnum \<Rightarrow> jsnum" where
  "assignedSignal impRef z =
     (if \<not> isNaN impRef \<and> js_neq impRef (Fin 0) \<and> \<not> isNaN z
      then js_mul (js_div (js_sub z impRef) impRef) (Fin 100)
      else NaN)"

definition allUndefined :: "sensorReading \<Rightarrow> bool" where
  "allUndefined r = (isNaN (time_s r) \<and> isNaN (time_min_row r) \<and> isNaN (impedance r)
                     \<and> isNaN (phase r) \<and> isNaN (signal r) \<and> isNaN (gas_concentration r))"

subsection \<open>Sample files\<close>

text \<open>
  Sample inputs for the sensor files: a timestamp parser and a number parser that know the
  strings the samples use, rows of nine columns with the impedance in column 7, and files
  that exercise the baseline, the outlier tests and the column check.
\<close>

definition sampleDateMs :: "string \<Rightarrow> int option" where
  "sampleDateMs s =
     (if s = ''01/01/2024 00:00:00'' then Some 1704067200000
      else if s = ''01/01/2024 00:01:00'' then Some 1704067260000
      else if s = ''01/01/2024 00:02:00'' then Some 1704067320000
      else if s = ''01/01/2024 00:03:00'' then Some 1704067380000
      else None)"

definition sampleParseFloat :: "string \<Rightarrow> jsnum" where
  "sampleParseFloat s =
     (if s = ''0'' then Fin 0
      else if s = ''1'' then Fin 1
      else if s = ''100'' then Fin 100
      else if s = ''150'' then Fin 150
      else if s = ''1000'' then Fin 1000
      else if s = ''3e12'' then Fin 3000000000000
      else if s = ''-2e12'' then Fin (- 2000000000000)
      else NaN)"

definition sampleRow :: "string \<Rightarrow> string \<Rightarrow> csvRow" where
  "sampleRow stamp z = [stamp, ''0'', ''0'', ''0'', ''0'', ''0'', ''0'', z, ''0'']"

definition scenarioRows :: "csvRow list" where
  "scenarioRows = [sampleRow ''01/01/2024 00:00:00'' ''100'', sampleRow ''01/01/2024 00:01:00'' ''100'',
          sampleRow ''01/01/2024 00:02:00'' ''150'', sampleRow ''01/01/2024 00:03:00'' ''100'']"

definition noBaselineRows :: "csvRow list" where
  "noBaselineRows = [sampleRow ''01/01/2024 00:00:00'' ''100'', sampleRow ''01/01/2024 00:01:00'' ''bad'',
          sampleRow ''01/01/2024 00:02:00'' ''150'']"

definition outlierRows :: "csvRow list" where
  "outlierRows = [sampleRow ''01/01/2024 00:00:00'' ''1'', sampleRow ''01/01/2024 00:01:00'' ''1000'']"

definition overflowRows :: "csvRow list" where
  "overflowRows = [sampleRow ''01/01/2024 00:00:00'' ''100'', sampleRow ''01/01/2024 00:01:00'' ''3e12'']"

definition negativeRows :: "csvRow list" where
  "negativeRows = [sampleRow ''01/01/2024 00:00:00'' ''100'', sampleRow ''01/01/2024 00:01:00'' ''-2e12'']"

definition shortRowRows :: "csvRow list" where
  "shortRowRows = [sampleRow ''01/01/2024 00:00:00'' ''100'', [''01/01/2024 00:01:00'', ''5''],
          sampleRow ''01/01/2024 00:02:00'' ''150'']"

definition shortFirstRows :: "csvRow list" where
  "shortFirstRows = [[''01/01/2024 00:00:00'', ''5''], sampleRow ''01/01/2024 00:01:00'' ''100'']"

section \<open>Facts about the number model\<close>

lemma js_eq_iff: "js_eq a b \<longleftrightarrow> a = b \<and> a \<noteq> NaN"
  by (cases a; cases b; simp)

lemma js_le_trans: "js_le a b \<Longrightarrow> js_le b c \<Longrightarrow> js_le a c"
  by (cases a; cases b; cases c; auto simp add: js_le_def)

lemma js_le_refl: "\<not> isNaN a \<Longrightarrow> js_le a a"
  by (cases a; simp add: js_le_def)

lemma js_le_antisym: "js_le a b \<Longrightarrow> js_le b a \<Longrightarrow> a = b"
  by (cases a; cases b; auto simp add: js_le_def)

lemma js_le_notNaN: "js_le a b \<Longrightarrow> \<not> isNaN a \<and> \<not> isNaN b"
  by (cases a; cases b; simp add: js_le_def)

lemma js_lt_imp_le: "js_lt a b \<Longrightarrow> js_le a b"
  by (simp add: js_le_def)

lemma not_js_lt_le: "\<not> js_lt t a \<Longrightarrow> \<not> isNaN t \<Longrightarrow> \<not> isNaN a \<Longrightarrow> js_le a t"
  by (cases a; cases t; auto simp add: js_le_def)

section \<open>The exposure-event extractor\<close>

lemma eventStep_positive:
  assumes "\<forall>e\<in>set events. positiveDuration e"
    and "eventStep (events, active) point = (events', active')"
  shows "\<forall>e\<in>set events'. positiveDuration e"
  using assms by (cases active) (auto simp: positiveDuration_def Let_def split: if_splits)

lemma eventLoop_positive:
  "\<forall>e\<in>set (fst st). positiveDuration e \<Longrightarrow>
     \<forall>e\<in>set (fst (eventLoop points st)). positiveDuration e"
proof (induction points arbitrary: st)
  case Nil
  then show ?case by simp
next
  case (Cons point points)
  obtain events active where st: "st = (events, active)" by (cases st)
  obtain events' active' where step: "eventStep (events, active) point = (events', active')"
    by (cases "eventStep (events, active) point")
  from Cons.prems st have "\<forall>e\<in>set events. positiveDuration e" by simp
  from eventStep_positive[OF this step]
  have "\<forall>e\<in>set (fst (events', active')). positiveDuration e" by simp
  from Cons.IH[OF this] show ?case using st step by simp
qed

lemma finishEvents_positive:
  "\<forall>e\<in>set (fst st). positiveDuration e \<Longrightarrow> \<forall>e\<in>set (finishEvents st). positiveDuration e"
  by (cases st; cases "snd st") (auto simp: positiveDuration_def Let_def)

text \<open>
  Claim C9.  Whatever the input sequence (ordered or not, or missing), every event that
  \<open>identifyGasExposureEvents\<close> returns has \<open>endTime > startTime\<close>.
\<close>

theorem C9_events_have_positive_duration:
  "\<forall>e\<in>set (identifyGasExposureEvents gasConcProfile). js_gt (endTime e) (startTime e)"
proof (cases gasConcProfile)
  case None
  then show ?thesis by (simp add: identifyGasExposureEvents_def)
next
  case (Some points)
  have "\<forall>e\<in>set (fst (eventLoop points ([], None))). positiveDuration e"
    by (rule eventLoop_positive) simp
  from finishEvents_positive[OF this] show ?thesis
    using Some by (simp add: identifyGasExposureEvents_def positiveDuration_def)
qed

lemma unordered_profile_events:
  "identifyGasExposureEvents
     (Some [\<lparr>time_min = Fin 0, conc = Fin 0\<rparr>, \<lparr>time_min = Fin 5, conc = Fin 20\<rparr>,
            \<lparr>time_min = Fin 5, conc = Fin 20\<rparr>, \<lparr>time_min = Fin 3, conc = Fin 20\<rparr>,
            \<lparr>time_min = Fin 10, conc = Fin 20\<rparr>, \<lparr>time_min = NaN, conc = Fin 2\<rparr>])
   = [\<lparr>startTime = Fin 3, concentration = Fin 20, endTime = Fin 10\<rparr>]"
  by (simp add: identifyGasExposureEvents_def newEvent_def js_gt_def js_le_def js_neq_def)

theorem C9_events_have_positive_duration_witness:
  "identifyGasExposureEvents
     (Some [\<lparr>time_min = Fin 0, conc = Fin 0\<rparr>, \<lparr>time_min = Fin 5, conc = Fin 20\<rparr>,
            \<lparr>time_min = Fin 5, conc = Fin 20\<rparr>, \<lparr>time_min = Fin 3, conc = Fin 20\<rparr>,
            \<lparr>time_min = Fin 10, conc = Fin 20\<rparr>, \<lparr>time_min = NaN, conc = Fin 2\<rparr>])
     = [\<lparr>startTime = Fin 3, concentration = Fin 20, endTime = Fin 10\<rparr>]
   \<and> js_gt (endTime \<lparr>startTime = Fin 3, concentration = Fin 20, endTime = Fin 10\<rparr>)
           (startTime \<lparr>startTime = Fin 3, concentration = Fin 20, endTime = Fin 10\<rparr>)"
  using C9_events_have_positive_duration
          [of "Some [\<lparr>time_min = Fin 0, conc = Fin 0\<rparr>, \<lparr>time_min = Fin 5, conc = Fin 20\<rparr>,
                     \<lparr>time_min = Fin 5, conc = Fin 20\<rparr>, \<lparr>time_min = Fin 3, conc = Fin 20\<rparr>,
                     \<lparr>time_min = Fin 10, conc = Fin 20\<rparr>, \<lparr>time_min = NaN, conc = Fin 2\<rparr>]"]
  by (simp add: unordered_profile_events)

text \<open>
  Claim C1, as amended.  On the profile \<open>[(0,0),(5,20),(10,0)]\<close> the extractor returns no
  event: the point \<open>(5,20)\<close> opens an event whose end time no later point of the same
  concentration extends, and an event without duration is dropped.  The event
  \<open>{startTime: 5, endTime: 10, concentration: 20}\<close> is returned once the profile holds the
  point that closes the segment, \<open>[(0,0),(5,20),(10,20),(10,0)]\<close>.
\<close>

theorem C1_scenario:
  "identifyGasExposureEvents
     (Some [\<lparr>time_min = Fin 0, conc = Fin 0\<rparr>, \<lparr>time_min = Fin 5, conc = Fin 20\<rparr>,
            \<lparr>time_min = Fin 10, conc = Fin 0\<rparr>]) = []
   \<and> identifyGasExposureEvents
       (Some [\<lparr>time_min = Fin 0, conc = Fin 0\<rparr>, \<lparr>time_min = Fin 5, conc = Fin 20\<rparr>,
              \<lparr>time_min = Fin 10, conc = Fin 20\<rparr>, \<lparr>time_min = Fin 10, conc = Fin 0\<rparr>])
     = [\<lparr>startTime = Fin 5, concentration = Fin 20, endTime = Fin 10\<rparr>]"
  by (simp add: identifyGasExposureEvents_def newEvent_def js_gt_def js_le_def js_neq_def)

theorem C1_counterexample:
  "identifyGasExposureEvents
     (Some [\<lparr>time_min = Fin 0, conc = Fin 0\<rparr>, \<lparr>time_min = Fin 5, conc = Fin 20\<rparr>,
            \<lparr>time_min = Fin 10, conc = Fin 0\<rparr>])
   \<noteq> [\<lparr>startTime = Fin 5, concentration = Fin 20, endTime = Fin 10\<rparr>]"
  by (simp add: identifyGasExposureEvents_def newEvent_def js_gt_def js_le_def js_neq_def)

section \<open>The profile sampler\<close>

lemma last_filter_last: "xs \<noteq> [] \<Longrightarrow> P (last xs) \<Longrightarrow> last (filter P xs) = last xs"
  by (induction xs rule: rev_induct) simp_all

lemma holdLoop_filter:
  "sortedTimes ps \<Longrightarrow>
     holdLoop r ps t = (case filter (\<lambda>p. js_le (time_min p) t) ps of
                          [] \<Rightarrow> r | qs \<Rightarrow> conc (last qs))"
proof (induction ps arbitrary: r)
  case Nil
  then show ?case by simp
next
  case (Cons p ps)
  from Cons.prems have sorted: "sortedTimes ps"
    and later: "\<forall>q\<in>set ps. js_le (time_min p) (time_min q)"
    by (simp_all add: sortedTimes_def)
  show ?case
  proof (cases "js_le (time_min p) t")
    case True
    then show ?thesis using Cons.IH[OF sorted, of "conc p"]
      by (simp split: list.splits)
  next
    case False
    have "filter (\<lambda>q. js_le (time_min q) t) ps = []"
    proof -
      have "\<not> js_le (time_min q) t" if "q \<in> set ps" for q
        using later that False js_le_trans by blast
      then show ?thesis by (simp add: filter_empty_conv)
    qed
    then show ?thesis using False by simp
  qed
qed

text \<open>
  Claim C3.  On a time-ordered profile (every time a number, times non-decreasing)
  \<open>interpolateGasConcentration\<close> is the previous-value hold of the specification: NaN for
  a NaN query or an empty profile, the first concentration for a query before the first
  point, and otherwise the concentration of the last point whose time is at most the query;
  so a query at or past the last point returns the last concentration.
\<close>

theorem C3_previous_value_hold:
  assumes "timeOrdered prof"
  shows "previousValueHold prof t = Some (interpolateGasConcentration (Some prof) t)
         \<and> (prof \<noteq> [] \<and> js_le (time_min (last prof)) t
              \<longrightarrow> interpolateGasConcentration (Some prof) t = conc (last prof))"
proof (cases "isNaN t \<or> prof = []")
  case True
  then show ?thesis
    by (cases prof) (auto simp: previousValueHold_def interpolateGasConcentration_def
          dest: js_le_notNaN)
next
  case False
  then obtain p0 ps where prof: "prof = p0 # ps" by (cases prof) auto
  from assms have sorted: "sortedTimes prof" and defined: "\<not> isNaN (time_min p0)"
    by (simp_all add: timeOrdered_def prof)
  note hold = holdLoop_filter[OF sorted, of "conc p0" t]
  show ?thesis
  proof (cases "js_lt t (time_min p0)")
    case True
    have "\<not> js_le (time_min (last prof)) t"
    proof
      assume le: "js_le (time_min (last prof)) t"
      have "js_le (time_min p0) (time_min (last prof))"
        using sorted defined by (cases ps) (auto simp: prof sortedTimes_def js_le_refl)
      with le have "js_le (time_min p0) t" using js_le_trans by blast
      with True show False by (cases t; cases "time_min p0") (auto simp: js_le_def)
    qed
    with True False show ?thesis
      by (simp add: previousValueHold_def interpolateGasConcentration_def prof)
  next
    case nlt: False
    with False defined have first: "js_le (time_min p0) t" by (simp add: not_js_lt_le)
    then have ne: "filter (\<lambda>p. js_le (time_min p) t) prof \<noteq> []" by (simp add: prof)
    have "interpolateGasConcentration (Some prof) t = holdLoop (conc p0) prof t"
      using False nlt by (simp add: interpolateGasConcentration_def prof)
    also have "\<dots> = conc (last (filter (\<lambda>p. js_le (time_min p) t) prof))"
      using hold ne by (cases "filter (\<lambda>p. js_le (time_min p) t) prof") simp_all
    finally have res: "interpolateGasConcentration (Some prof) t
                         = conc (last (filter (\<lambda>p. js_le (time_min p) t) prof))" .
    have "previousValueHold prof t
            = Some (conc (last (filter (\<lambda>p. js_le (time_min p) t) prof)))"
      using False nlt ne
      by (cases "filter (\<lambda>p. js_le (time_min p) t) prof")
         (simp_all add: previousValueHold_def prof del: filter.simps)
    with res
    have part1: "previousValueHold prof t = Some (interpolateGasConcentration (Some prof) t)"
      by simp
    have part2: "interpolateGasConcentration (Some prof) t = conc (last prof)"
      if "js_le (time_min (last prof)) t"
    proof -
      have "last (filter (\<lambda>p. js_le (time_min p) t) prof) = last prof"
        using that last_filter_last[of prof "\<lambda>p. js_le (time_min p) t"]
        by (simp add: prof del: filter.simps)
      with res show ?thesis by simp
    qed
    from part1 part2 show ?thesis by simp
  qed
qed



lemma sample_profile_ordered:
  "timeOrdered [\<lparr>time_min = Fin 0, conc = Fin 0\<rparr>, \<lparr>time_min = Fin 1, conc = Fin 0\<rparr>,
                \<lparr>time_min = Fin (61 / 60), conc = Fin 10\<rparr>, \<lparr>time_min = Fin 3, conc = Fin 10\<rparr>]"
  by (simp add: timeOrdered_def sortedTimes_def js_le_def)

theorem C3_previous_value_hold_witness:
  "timeOrdered [\<lparr>time_min = Fin 0, conc = Fin 0\<rparr>, \<lparr>time_min = Fin 1, conc = Fin 0\<rparr>,
                \<lparr>time_min = Fin (61 / 60), conc = Fin 10\<rparr>, \<lparr>time_min = Fin 3, conc = Fin 10\<rparr>]
   \<and> js_le (time_min (last [\<lparr>time_min = Fin 0, conc = Fin 0\<rparr>, \<lparr>time_min = Fin 1, conc = Fin 0\<rparr>,
                \<lparr>time_min = Fin (61 / 60), conc = Fin 10\<rparr>, \<lparr>time_min = Fin 3, conc = Fin 10\<rparr>]))
        (Fin 5)
   \<and> previousValueHold
        [\<lparr>time_min = Fin 0, conc = Fin 0\<rparr>, \<lparr>time_min = Fin 1, conc = Fin 0\<rparr>,
         \<lparr>time_min = Fin (61 / 60), conc = Fin 10\<rparr>, \<lparr>time_min = Fin 3, conc = Fin 10\<rparr>]
        (Fin 5) = Some (Fin 10)
   \<and> interpolateGasConcentration
        (Some [\<lparr>time_min = Fin 0, conc = Fin 0\<rparr>, \<lparr>time_min = Fin 1, conc = Fin 0\<rparr>,
               \<lparr>time_min = Fin (61 / 60), conc = Fin 10\<rparr>, \<lparr>time_min = Fin 3, conc = Fin 10\<rparr>])
        (Fin 5) = Fin 10"
  using C3_previous_value_hold [OF sample_profile_ordered, of "Fin 5"] sample_profile_ordered
  by (simp add: js_le_def)

section \<open>The profile builder\<close>

subsection \<open>The deduplication pass\<close>

lemma samePoint_sym: "samePoint p q \<Longrightarrow> samePoint q p"
  by (auto simp: samePoint_def js_eq_iff)

lemma samePoint_trans: "samePoint p q \<Longrightarrow> samePoint q r \<Longrightarrow> samePoint p r"
  by (auto simp: samePoint_def js_eq_iff)

lemma dedupAfter_step:
  "dedupAfter prev (p # ps)
     = (if samePoint p prev then dedupAfter p ps else p # dedupAfter p ps)"
  by (simp add: samePoint_def js_neq_def)

lemma dedupAfter_no_dups:
  "k = prev \<or> samePoint k prev \<Longrightarrow>
     successively (\<lambda>p q. \<not> samePoint p q) (k # dedupAfter prev ps)"
proof (induction ps arbitrary: k prev)
  case Nil
  then show ?case by simp
next
  case (Cons p ps)
  show ?case
  proof (cases "samePoint p prev")
    case True
    with Cons.prems have "k = p \<or> samePoint k p"
      by (metis samePoint_sym samePoint_trans)
    from Cons.IH[OF this] show ?thesis
      using True by (simp add: dedupAfter_step del: dedupAfter.simps)
  next
    case False
    with Cons.prems have "\<not> samePoint k p"
      by (metis samePoint_sym samePoint_trans)
    moreover have "successively (\<lambda>p q. \<not> samePoint p q) (p # dedupAfter p ps)"
      by (rule Cons.IH) simp
    ultimately show ?thesis
      using False by (simp add: dedupAfter_step del: dedupAfter.simps)
  qed
qed

lemma deduplicate_no_dups: "noConsecutiveDuplicates (deduplicate ps)"
  by (cases ps) (simp_all add: noConsecutiveDuplicates_def dedupAfter_no_dups)

lemma set_dedupAfter: "set (dedupAfter prev ps) \<subseteq> set ps"
  by (induction ps arbitrary: prev) auto

lemma sorted_wrt_dedupAfter: "sorted_wrt P ps \<Longrightarrow> sorted_wrt P (dedupAfter prev ps)"
proof (induction ps arbitrary: prev)
  case Nil
  then show ?case by simp
next
  case (Cons p ps)
  then show ?case using set_dedupAfter[of p ps] by auto
qed

lemma set_deduplicate: "set (deduplicate ps) \<subseteq> set ps"
  using set_dedupAfter by (cases ps) auto

lemma sorted_wrt_deduplicate: "sorted_wrt P ps \<Longrightarrow> sorted_wrt P (deduplicate ps)"
  using set_dedupAfter sorted_wrt_dedupAfter by (cases ps) (auto, blast)

lemma hd_deduplicate: "hd (deduplicate ps) = hd ps" "deduplicate ps = [] \<longleftrightarrow> ps = []"
  by (cases ps; simp)+

lemma ensureStart_id: "startsAtOrigin prof \<Longrightarrow> ensureStart prof = prof"
  by (simp add: startsAtOrigin_def ensureStart_def js_neq_def)

subsection \<open>The first point\<close>

text \<open>
  After point 1 the list is never empty, so the unguarded read of its last element in the
  test for point 2 is in range.
\<close>

lemma pushPoint1_nonempty: "pushPoint1 rnd prof t c \<noteq> []"
  by (simp add: pushPoint1_def)

lemma pushPoint1_cases:
  "pushPoint1 rnd prof t c = prof
   \<or> pushPoint1 rnd prof t c = prof @ [\<lparr>time_min = fl_div rnd t (Fin 60), conc = c\<rparr>]"
  by (simp add: pushPoint1_def)

lemma pushPoint2_cases:
  "pushPoint2 rnd prof t c n = prof
   \<or> pushPoint2 rnd prof t c n
       = prof @ [\<lparr>time_min = fl_add rnd (fl_div rnd t (Fin 60)) (oneSecondInMinutes rnd),
                  conc = n\<rparr>]"
  by (simp add: pushPoint2_def)

lemma startsAtOrigin_append: "startsAtOrigin prof \<Longrightarrow> startsAtOrigin (prof @ qs)"
  by (simp add: startsAtOrigin_def)

lemma pushPoint1_origin: "startsAtOrigin prof \<Longrightarrow> startsAtOrigin (pushPoint1 rnd prof t c)"
  using pushPoint1_cases[of rnd prof t c] by (auto simp: startsAtOrigin_append)

lemma pushPoint2_origin: "startsAtOrigin prof \<Longrightarrow> startsAtOrigin (pushPoint2 rnd prof t c n)"
  using pushPoint2_cases[of rnd prof t c n] by (auto simp: startsAtOrigin_append)

lemma profileStep_origin:
  "startsAtOrigin (calculatedProfile st) \<Longrightarrow>
     startsAtOrigin (calculatedProfile (profileStep rnd tf gc st step))"
  by (simp add: profileStep_def Let_def startsAtOrigin_append pushPoint1_origin pushPoint2_origin)

lemma profileLoop_origin:
  "startsAtOrigin (calculatedProfile st) \<Longrightarrow>
     startsAtOrigin (calculatedProfile (profileLoop rnd tf gc steps st))"
  by (induction steps arbitrary: st) (simp_all add: profileStep_origin)

lemma initialState_origin: "startsAtOrigin (calculatedProfile initialState)"
  by (simp add: initialState_def startsAtOrigin_def)

lemma startsAtOrigin_deduplicate: "startsAtOrigin prof \<Longrightarrow> startsAtOrigin (deduplicate prof)"
  by (simp add: startsAtOrigin_def hd_deduplicate)

text \<open>
  With a step to process, the closing block changes nothing and the result is the
  deduplicated list of the points the loop pushed.
\<close>

lemma calculate_Some:
  "steps \<noteq> [] \<Longrightarrow> calculateGasConcVsTime rnd (Some steps) config =
     deduplicate (calculatedProfile
       (profileLoop rnd (totalFlowrateOf config) (gasConcCyl2Of config) steps initialState))"
  by (cases steps) (simp_all add: calculateGasConcVsTime_def Let_def ensureStart_id
        startsAtOrigin_deduplicate profileLoop_origin initialState_origin del: profileLoop.simps)

lemma calculate_empty:
  "calculateGasConcVsTime rnd None config = [\<lparr>time_min = Fin 0, conc = Fin 0\<rparr>]"
  "calculateGasConcVsTime rnd (Some []) config = [\<lparr>time_min = Fin 0, conc = Fin 0\<rparr>]"
  by (simp_all add: calculateGasConcVsTime_def)

subsection \<open>Rounded times of a step\<close>

text \<open>
  On a regular schedule the transition time of a step is after the running time in minutes
  and not after the closing time of the step: with \<open>a\<close> the running time in minutes,
  \<open>u\<close> the transition time and \<open>b\<close> the closing time, \<open>a < u \<le> b\<close>.
\<close>

lemma minNormal_small: "minNormal \<le> 1 / 90"
proof -
  have "(90::real) \<le> 2 ^ 7" by simp
  also have "\<dots> \<le> 2 ^ 1022" by (rule power_increasing) simp_all
  finally have "(90::real) \<le> 2 ^ 1022" .
  then show ?thesis unfolding minNormal_def by (simp add: field_simps)
qed

lemma js_le_Fin: "js_le (Fin a) (Fin b) \<longleftrightarrow> a \<le> b"
  by (auto simp: js_le_def)

lemma js_le_Fin_cases:
  "js_le (Fin a) v \<Longrightarrow> js_le v (Fin b) \<Longrightarrow> \<exists>r. v = Fin r \<and> a \<le> r \<and> r \<le> b"
  by (cases v) (auto simp: js_le_def)

lemma rnd_zero: "correctRounding eps rnd \<Longrightarrow> rnd 0 = Fin 0"
  by (simp add: correctRounding_def)

lemma rnd_mono: "correctRounding eps rnd \<Longrightarrow> x \<le> y \<Longrightarrow> js_le (rnd x) (rnd y)"
  by (simp add: correctRounding_def)

lemma rnd_idem: "correctRounding eps rnd \<Longrightarrow> rnd x = Fin r \<Longrightarrow> rnd r = Fin r"
  unfolding correctRounding_def by blast

lemma rnd_error:
  "correctRounding eps rnd \<Longrightarrow> minNormal \<le> x \<Longrightarrow> rnd x = Fin r \<Longrightarrow>
     (1 - eps) * x \<le> r \<and> r \<le> (1 + eps) * x"
  unfolding correctRounding_def by blast

lemma rnd_between:
  assumes cr: "correctRounding eps rnd" and "0 \<le> x" "x \<le> y" "rnd y = Fin ry"
  shows "\<exists>r. rnd x = Fin r \<and> 0 \<le> r \<and> r \<le> ry"
proof -
  have "js_le (Fin 0) (rnd x)" using rnd_mono[OF cr assms(2)] rnd_zero[OF cr] by simp
  moreover have "js_le (rnd x) (Fin ry)" using rnd_mono[OF cr assms(3)] assms(4) by simp
  ultimately show ?thesis by (rule js_le_Fin_cases)
qed

lemma margin:
  fixes e t :: real
  assumes "0 \<le> e" "0 \<le> t" "2 * e * t + 3 * e \<le> 1"
  shows "(1 + e) * (t + 1) \<le> (1 - e) * (t + 2)"
proof -
  have "(1 - e) * (t + 2) - (1 + e) * (t + 1) = 1 - (2 * e * t + 3 * e)"
    by (simp add: algebra_simps)
  with assms(3) show ?thesis by linarith
qed

lemma strict_margin:
  fixes e t :: real
  assumes "0 \<le> e" "0 \<le> t" "2 * e * t + 3 * e \<le> 1"
  shows "e * ((1 + e) * t) < (1 - e) * (1 - e)"
proof -
  have e3: "e \<le> 1 / 3"
  proof -
    have "0 \<le> 2 * e * t" using assms by simp
    with assms(3) show ?thesis by linarith
  qed
  have et: "e * t \<le> (1 - 3 * e) / 2" using assms(3) by (simp add: algebra_simps)
  have "e * ((1 + e) * t) = (1 + e) * (e * t)" by (simp add: algebra_simps)
  also have "\<dots> \<le> (1 + e) * ((1 - 3 * e) / 2)"
    using et assms(1) by (intro mult_left_mono) simp_all
  also have "\<dots> < (1 - e) * (1 - e)"
  proof -
    have "2 * ((1 - e) * (1 - e)) - (1 + e) * (1 - 3 * e) = 1 - 2 * e + 5 * (e * e)"
      by (simp add: algebra_simps)
    moreover have "0 < 1 - 2 * e + 5 * (e * e)"
    proof -
      have "0 \<le> e * e" by simp
      with e3 show ?thesis by linarith
    qed
    ultimately have "(1 + e) * (1 - 3 * e) < 2 * ((1 - e) * (1 - e))" by linarith
    then show ?thesis by simp
  qed
  finally show ?thesis .
qed


lemma step_times:
  assumes cr: "correctRounding eps rnd" and e0: "0 \<le> eps"
    and bound: "2 * eps * tmax + 3 * eps \<le> 1"
    and tau: "\<tau> = 0 \<or> 1 \<le> \<tau>" and le: "\<tau> \<le> tmax" and rep: "rnd \<tau> = Fin \<tau>"
    and d: "2 \<le> \<delta>" and fin: "js_le (rnd (\<tau> + \<delta>)) (Fin tmax)"
  obtains a s u \<tau>' b where
    "rnd (\<tau> / 60) = Fin a" "rnd (1 / 60) = Fin s" "rnd (a + s) = Fin u"
    "rnd (\<tau> + \<delta>) = Fin \<tau>'" "rnd (\<tau>' / 60) = Fin b"
    "a < u" "u \<le> b" "1 \<le> \<tau>'" "\<tau>' \<le> tmax" "rnd \<tau>' = Fin \<tau>'"
proof -
  have t0: "0 \<le> \<tau>" using tau by auto
  have tm0: "0 \<le> tmax" using t0 le by simp
  have e3: "eps \<le> 1 / 3"
  proof -
    have "0 \<le> 2 * eps * tmax" using e0 tm0 by simp
    with bound show ?thesis by linarith
  qed
  have bt: "2 * eps * \<tau> + 3 * eps \<le> 1"
  proof -
    have "eps * \<tau> \<le> eps * tmax" using le e0 by (rule mult_left_mono)
    with bound show ?thesis by linarith
  qed
  have "js_le (Fin 0) (rnd (\<tau> + \<delta>))"
    using rnd_mono[OF cr, of 0 "\<tau> + \<delta>"] rnd_zero[OF cr] t0 d by simp
  from js_le_Fin_cases[OF this fin]
  obtain \<tau>' where t': "rnd (\<tau> + \<delta>) = Fin \<tau>'" and t'0: "0 \<le> \<tau>'" and t'le: "\<tau>' \<le> tmax"
    by auto
  have idem': "rnd \<tau>' = Fin \<tau>'" by (rule rnd_idem[OF cr t'])
  have mn: "minNormal \<le> \<tau> + \<delta>" using minNormal_small t0 d by linarith
  from rnd_error[OF cr mn t'] have lo': "(1 - eps) * (\<tau> + \<delta>) \<le> \<tau>'" by simp
  have one: "1 \<le> \<tau>'"
  proof -
    have "(2 / 3) * 2 \<le> (1 - eps) * (\<tau> + \<delta>)"
      using e3 t0 d by (intro mult_mono) simp_all
    with lo' show ?thesis by linarith
  qed
  have "\<exists>r. rnd (1 / 60) = Fin r \<and> 0 \<le> r \<and> r \<le> \<tau>'"
    using t0 d by (intro rnd_between[OF cr _ _ t']) simp_all
  then obtain s where s: "rnd (1 / 60) = Fin s" by auto
  have mns: "minNormal \<le> 1 / 60" using minNormal_small by linarith
  from rnd_error[OF cr mns s]
  have slo: "(1 - eps) * (1 / 60) \<le> s" and shi: "s \<le> (1 + eps) * (1 / 60)" by simp_all
  have "\<exists>r. rnd (\<tau> / 60) = Fin r \<and> 0 \<le> r \<and> r \<le> \<tau>"
    using t0 by (intro rnd_between[OF cr _ _ rep]) simp_all
  then obtain a where a: "rnd (\<tau> / 60) = Fin a" and a0: "0 \<le> a" by auto
  have ahi: "a \<le> (1 + eps) * (\<tau> / 60)"
  proof (cases "\<tau> = 0")
    case True
    with a rnd_zero[OF cr] show ?thesis by simp
  next
    case False
    with tau have "1 \<le> \<tau>" by simp
    then have "minNormal \<le> \<tau> / 60" using minNormal_small by linarith
    from rnd_error[OF cr this a] show ?thesis by simp
  qed
  have idema: "rnd a = Fin a" by (rule rnd_idem[OF cr a])
  have "\<exists>r. rnd (\<tau>' / 60) = Fin r \<and> 0 \<le> r \<and> r \<le> \<tau>'"
    using t'0 by (intro rnd_between[OF cr _ _ idem']) simp_all
  then obtain b where b: "rnd (\<tau>' / 60) = Fin b" by auto
  have key: "a + s \<le> \<tau>' / 60"
  proof -
    have "(1 + eps) * (\<tau> + 1) \<le> (1 - eps) * (\<tau> + 2)" by (rule margin[OF e0 t0 bt])
    also have "\<dots> \<le> (1 - eps) * (\<tau> + \<delta>)"
      using d e3 by (intro mult_left_mono) simp_all
    also have "\<dots> \<le> \<tau>'" by (rule lo')
    finally have "(1 + eps) * (\<tau> + 1) \<le> \<tau>'" .
    moreover have "a + s \<le> (1 + eps) * (\<tau> + 1) / 60"
      using ahi shi by (simp add: algebra_simps)
    ultimately show ?thesis by linarith
  qed
  have "js_le (Fin a) (rnd (a + s))"
  proof -
    have "0 \<le> s"
    proof -
      have "0 \<le> (1 - eps) * (1 / 60)" using e3 by simp
      with slo show ?thesis by linarith
    qed
    then have "a \<le> a + s" by simp
    from rnd_mono[OF cr this] idema show ?thesis by simp
  qed
  moreover have "js_le (rnd (a + s)) (Fin b)"
    using rnd_mono[OF cr key] b by simp
  ultimately obtain u where u: "rnd (a + s) = Fin u" and au: "a \<le> u" and ub: "u \<le> b"
    using js_le_Fin_cases by blast
  have strict: "a < u"
  proof -
    have s90: "1 / 90 \<le> s"
    proof -
      have "(2 / 3) * (1 / 60) \<le> (1 - eps) * (1 / 60)"
        using e3 by (intro mult_right_mono) simp_all
      with slo show ?thesis by linarith
    qed
    then have "minNormal \<le> a + s" using minNormal_small a0 by linarith
    from rnd_error[OF cr this u] have ulo: "(1 - eps) * (a + s) \<le> u" by simp
    have "eps * a \<le> eps * ((1 + eps) * (\<tau> / 60))" using ahi e0 by (rule mult_left_mono)
    also have "\<dots> = eps * ((1 + eps) * \<tau>) / 60" by simp
    also have "\<dots> < (1 - eps) * (1 - eps) / 60"
      using strict_margin[OF e0 t0 bt] by simp
    also have "\<dots> = (1 - eps) * ((1 - eps) * (1 / 60))" by simp
    also have "\<dots> \<le> (1 - eps) * s" using slo e3 by (intro mult_left_mono) simp_all
    finally have "eps * a < (1 - eps) * s" .
    then have "a < (1 - eps) * (a + s)" by (simp add: algebra_simps)
    with ulo show ?thesis by linarith
  qed
  from that[OF a s u t' b strict ub one t'le idem'] show ?thesis .
qed

subsection \<open>The invariant of the loop on a regular schedule\<close>

lemma sortedTimes_snoc:
  "sortedTimes prof \<Longrightarrow> boundedBy prof t \<Longrightarrow> sortedTimes (prof @ [\<lparr>time_min = t, conc = c\<rparr>])"
  by (simp add: sortedTimes_def boundedBy_def sorted_wrt_append)

lemma boundedBy_snoc:
  "boundedBy prof t \<Longrightarrow> js_le t t' \<Longrightarrow> boundedBy (prof @ [\<lparr>time_min = t, conc = c\<rparr>]) t'"
  by (auto simp: boundedBy_def intro: js_le_trans)

lemma boundedBy_mono: "boundedBy prof t \<Longrightarrow> js_le t t' \<Longrightarrow> boundedBy prof t'"
  by (auto simp: boundedBy_def intro: js_le_trans)

lemma sortedTimes_nonDecreasing: "sortedTimes prof \<Longrightarrow> nonDecreasingTimes prof"
  by (simp add: sortedTimes_def nonDecreasingTimes_def successively_if_sorted_wrt)

lemma js_lt_not_le: "js_lt u v \<Longrightarrow> \<not> js_le v u"
  by (cases u; cases v) (auto simp: js_le_def)

lemma functionalTimes_later:
  assumes "functionalTimes xs" "boundedBy xs u" "js_lt u (time_min x)"
  shows "functionalTimes (xs @ [x])"
proof -
  have ne: "time_min y \<noteq> time_min x" if "y \<in> set xs" for y
  proof
    assume "time_min y = time_min x"
    moreover from that assms(2) have "js_le (time_min y) u" by (simp add: boundedBy_def)
    ultimately have "js_le (time_min x) u" by simp
    with assms(3) show False using js_lt_not_le by blast
  qed
  show ?thesis
    unfolding functionalTimes_def
  proof (intro ballI impI)
    fix p q
    assume p: "p \<in> set (xs @ [x])" and q: "q \<in> set (xs @ [x])"
      and eq: "time_min p = time_min q"
    consider "p \<in> set xs" "q \<in> set xs" | "p = x" "q = x" | "p \<in> set xs" "q = x"
      | "p = x" "q \<in> set xs"
      using p q by auto
    then show "conc p = conc q"
    proof cases
      case 1 with assms(1) eq show ?thesis unfolding functionalTimes_def by blast
    next
      case 2 then show ?thesis by simp
    next
      case 3 with ne[of p] eq show ?thesis by simp
    next
      case 4 with ne[of q] eq show ?thesis by simp
    qed
  qed
qed

lemma functionalTimes_dup:
  assumes "functionalTimes xs" "x \<in> set xs"
  shows "functionalTimes (xs @ [x])"
  unfolding functionalTimes_def
proof (intro ballI impI)
  fix p q
  assume "p \<in> set (xs @ [x])" "q \<in> set (xs @ [x])" and eq: "time_min p = time_min q"
  with assms(2) have "p \<in> set xs" "q \<in> set xs" by auto
  with assms(1) eq show "conc p = conc q" unfolding functionalTimes_def by blast
qed

lemma js_neq_sym: "js_neq a b = js_neq b a"
  by (cases a; cases b) (auto simp: js_neq_def)

lemma boundedBy_cong: "set xs = set ys \<Longrightarrow> boundedBy xs u = boundedBy ys u"
  by (simp add: boundedBy_def)

lemma functionalTimes_cong: "set xs = set ys \<Longrightarrow> functionalTimes xs = functionalTimes ys"
  by (simp add: functionalTimes_def)

lemma boundedBy_defined: "boundedBy prof u \<Longrightarrow> \<forall>q\<in>set prof. \<not> isNaN (time_min q)"
  using js_le_notNaN by (auto simp: boundedBy_def)

lemma holdLoop_roundTrip:
  assumes "sortedTimes ps"
    and "\<forall>q\<in>set ps. time_min q = t \<longrightarrow> conc q = c"
    and "(\<exists>p\<in>set ps. time_min p = t) \<or> (r = c \<and> (\<forall>p\<in>set ps. js_le t (time_min p)))"
    and "\<not> isNaN t"
  shows "holdLoop r ps t = c"
  using assms
proof (induction ps arbitrary: r)
  case Nil
  then show ?case by simp
next
  case (Cons p ps)
  from Cons.prems(1) have sorted: "sortedTimes ps"
    and later: "\<forall>q\<in>set ps. js_le (time_min p) (time_min q)"
    by (simp_all add: sortedTimes_def)
  from Cons.prems(2) have fn: "\<forall>q\<in>set ps. time_min q = t \<longrightarrow> conc q = c"
    and fnp: "time_min p = t \<longrightarrow> conc p = c" by simp_all
  show ?case
  proof (cases "js_le (time_min p) t")
    case True
    have "(\<exists>q\<in>set ps. time_min q = t)
          \<or> (conc p = c \<and> (\<forall>q\<in>set ps. js_le t (time_min q)))"
    proof (cases "\<exists>q\<in>set ps. time_min q = t")
      case True then show ?thesis by simp
    next
      case False
      have "time_min p = t"
      proof (cases "time_min p = t")
        case True then show ?thesis .
      next
        case ne: False
        with False Cons.prems(3) have "js_le t (time_min p)" by auto
        with True show ?thesis by (rule js_le_antisym)
      qed
      with fnp later show ?thesis by auto
    qed
    from Cons.IH[OF sorted fn this Cons.prems(4)] True show ?thesis by simp
  next
    case False
    have "\<not> (\<exists>q\<in>set (p # ps). time_min q = t)"
    proof
      assume "\<exists>q\<in>set (p # ps). time_min q = t"
      then have "js_le (time_min p) t"
        using later Cons.prems(4) js_le_refl by auto
      with False show False by simp
    qed
    with Cons.prems(3) have "r = c" by blast
    with False show ?thesis by simp
  qed
qed

lemma interpolate_roundTrip:
  assumes sorted: "sortedTimes prof" and fn: "functionalTimes prof"
    and defined: "\<forall>q\<in>set prof. \<not> isNaN (time_min q)" and p: "p \<in> set prof"
  shows "interpolateGasConcentration (Some prof) (time_min p) = conc p"
proof -
  from p obtain p0 ps where prof: "prof = p0 # ps" by (cases prof) auto
  from defined p have nn: "\<not> isNaN (time_min p)" by simp
  have "js_le (time_min p0) (time_min p)"
    using sorted p nn js_le_refl by (auto simp: prof sortedTimes_def)
  then have nlt: "\<not> js_lt (time_min p) (time_min p0)"
    using js_lt_not_le by blast
  have "holdLoop (conc p0) prof (time_min p) = conc p"
  proof (rule holdLoop_roundTrip[OF sorted _ _ nn])
    show "\<forall>q\<in>set prof. time_min q = time_min p \<longrightarrow> conc q = conc p"
      using fn p unfolding functionalTimes_def by blast
    show "(\<exists>q\<in>set prof. time_min q = time_min p)
          \<or> (conc p0 = conc p \<and> (\<forall>q\<in>set prof. js_le (time_min p) (time_min q)))"
      using p by blast
  qed
  with nn nlt show ?thesis by (simp add: interpolateGasConcentration_def prof)
qed


lemma fl_Fin: "fl_add rnd (Fin x) (Fin y) = rnd (x + y)"
  "fl_div rnd (Fin x) (Fin 60) = rnd (x / 60)"
  "oneSecondInMinutes rnd = rnd (1 / 60)"
  by (simp_all add: fl_add_def fl_div_def fl_def oneSecondInMinutes_def)

lemma pushPoint1_last:
  assumes "prof \<noteq> []" "last prof = \<lparr>time_min = fl_div rnd t (Fin 60), conc = c\<rparr>"
  shows "pushPoint1 rnd prof t c \<noteq> [] \<and> last (pushPoint1 rnd prof t c) = last prof
         \<and> set (pushPoint1 rnd prof t c) = set prof"
proof -
  from pushPoint1_cases[of rnd prof t c]
  consider "pushPoint1 rnd prof t c = prof" | "pushPoint1 rnd prof t c = prof @ [last prof]"
    using assms(2) by auto
  then show ?thesis
  proof cases
    case 1 then show ?thesis using assms(1) by simp
  next
    case 2
    have "last prof \<in> set prof" using assms(1) by simp
    then have "set (prof @ [last prof]) = set prof" by auto
    with 2 show ?thesis by simp
  qed
qed

lemma pushPoint2_last:
  assumes "last prof = \<lparr>time_min = v, conc = c\<rparr>"
  shows "pushPoint2 rnd prof t c n
           = (if js_neq n c
              then prof @ [\<lparr>time_min = fl_add rnd (fl_div rnd t (Fin 60)) (oneSecondInMinutes rnd),
                            conc = n\<rparr>]
              else prof)"
  using js_neq_sym[of c n] by (simp add: pushPoint2_def assms)

lemma profileStep_unfold:
  "profileStep rnd tf gc st step
     = \<lparr>calculatedProfile =
          pushPoint2 rnd (pushPoint1 rnd (calculatedProfile st) (currentTimeSeconds st)
                            (currentConcentration st))
            (currentTimeSeconds st) (currentConcentration st) (stepConcentration rnd tf gc step)
          @ [\<lparr>time_min = fl_div rnd (fl_add rnd (currentTimeSeconds st) (durationSeconds step))
                            (Fin 60),
              conc = stepConcentration rnd tf gc step\<rparr>],
        currentTimeSeconds = fl_add rnd (currentTimeSeconds st) (durationSeconds step),
        currentConcentration = stepConcentration rnd tf gc step\<rparr>"
  by (simp add: profileStep_def Let_def)

lemma profileStep_time:
  "currentTimeSeconds (profileStep rnd tf gc st step)
     = fl_add rnd (currentTimeSeconds st) (durationSeconds step)"
  by (simp add: profileStep_unfold)

lemma profileStep_loopInv:
  assumes cr: "correctRounding eps rnd" and e0: "0 \<le> eps"
    and bound: "2 * eps * tmax + 3 * eps \<le> 1"
    and inv: "loopInv rnd tmax st"
    and dur: "atLeastTwoSeconds (durationSeconds step)"
    and fin: "js_le (fl_add rnd (currentTimeSeconds st) (durationSeconds step)) (Fin tmax)"
  shows "loopInv rnd tmax (profileStep rnd tf gc st step)"
proof -
  define prof where "prof = calculatedProfile st"
  define c where "c = currentConcentration st"
  define n where "n = stepConcentration rnd tf gc step"
  from inv obtain \<tau> where t: "currentTimeSeconds st = Fin \<tau>"
    and tau: "\<tau> = 0 \<or> 1 \<le> \<tau>" and le: "\<tau> \<le> tmax" and rep: "rnd \<tau> = Fin \<tau>"
    and ne: "prof \<noteq> []"
    and lst: "last prof = \<lparr>time_min = fl_div rnd (Fin \<tau>) (Fin 60), conc = c\<rparr>"
    and srt: "sortedTimes prof"
    and bd: "boundedBy prof (fl_div rnd (Fin \<tau>) (Fin 60))"
    and fn: "functionalTimes prof"
    unfolding loopInv_def prof_def c_def by blast
  from dur obtain \<delta> where d: "durationSeconds step = Fin \<delta>" and d2: "2 \<le> \<delta>"
    by (cases "durationSeconds step") (simp_all add: atLeastTwoSeconds_def)
  from fin have fin': "js_le (rnd (\<tau> + \<delta>)) (Fin tmax)" by (simp add: t d fl_Fin)
  from step_times[OF cr e0 bound tau le rep d2 fin']
  obtain a s u \<tau>' b where a: "rnd (\<tau> / 60) = Fin a" and s: "rnd (1 / 60) = Fin s"
    and u: "rnd (a + s) = Fin u" and t': "rnd (\<tau> + \<delta>) = Fin \<tau>'"
    and b: "rnd (\<tau>' / 60) = Fin b" and au: "a < u" and ub: "u \<le> b"
    and one: "1 \<le> \<tau>'" and le': "\<tau>' \<le> tmax" and rep': "rnd \<tau>' = Fin \<tau>'"
    by blast
  have ta: "fl_div rnd (Fin \<tau>) (Fin 60) = Fin a" by (simp add: fl_Fin a)
  have tu: "fl_add rnd (fl_div rnd (Fin \<tau>) (Fin 60)) (oneSecondInMinutes rnd) = Fin u"
    by (simp add: fl_Fin a s u)
  have tt: "fl_add rnd (Fin \<tau>) (Fin \<delta>) = Fin \<tau>'" by (simp add: fl_Fin t')
  have tb: "fl_div rnd (Fin \<tau>') (Fin 60) = Fin b" by (simp add: fl_Fin b)
  define p1 where "p1 = pushPoint1 rnd prof (Fin \<tau>) c"
  define p2 where "p2 = pushPoint2 rnd p1 (Fin \<tau>) c n"
  define pt2 where "pt2 = \<lparr>time_min = Fin u, conc = n\<rparr>"
  define pt3 where "pt3 = \<lparr>time_min = Fin b, conc = n\<rparr>"
  have step: "profileStep rnd tf gc st step
                = \<lparr>calculatedProfile = p2 @ [pt3], currentTimeSeconds = Fin \<tau>',
                   currentConcentration = n\<rparr>"
    unfolding profileStep_unfold p2_def p1_def prof_def c_def n_def pt3_def t d tt tb ..
  from pushPoint1_last[OF ne lst]
  have ne1: "p1 \<noteq> []" and lst1: "last p1 = last prof" and set1: "set p1 = set prof"
    by (simp_all add: p1_def)
  have lsta: "last p1 = \<lparr>time_min = Fin a, conc = c\<rparr>" using lst1 lst ta by simp
  have bd1: "boundedBy p1 (Fin a)" using bd ta by (simp add: boundedBy_cong[OF set1])
  have fn1: "functionalTimes p1" using fn by (simp add: functionalTimes_cong[OF set1])
  have srt1: "sortedTimes p1"
  proof -
    from pushPoint1_cases[of rnd prof "Fin \<tau>" c]
    consider "p1 = prof" | "p1 = prof @ [\<lparr>time_min = Fin a, conc = c\<rparr>]"
      unfolding p1_def ta by blast
    then show ?thesis
    proof cases
      case 1 with srt show ?thesis by simp
    next
      case 2
      from bd ta have "boundedBy prof (Fin a)" by simp
      from sortedTimes_snoc[OF srt this] 2 show ?thesis by simp
    qed
  qed
  have p2: "p2 = (if js_neq n c then p1 @ [pt2] else p1)"
    unfolding p2_def pt2_def using pushPoint2_last[OF lsta, of rnd "Fin \<tau>" n] tu by simp
  have result: "sortedTimes (p2 @ [pt3]) \<and> boundedBy (p2 @ [pt3]) (Fin b)
                \<and> functionalTimes (p2 @ [pt3])"
  proof (cases "js_neq n c")
    case True
    have bdu: "boundedBy p1 (Fin u)"
      by (rule boundedBy_mono[OF bd1]) (use au in \<open>simp add: js_le_Fin\<close>)
    have s2: "sortedTimes (p1 @ [pt2])" unfolding pt2_def by (rule sortedTimes_snoc[OF srt1 bdu])
    have b2: "boundedBy (p1 @ [pt2]) (Fin u)"
      unfolding pt2_def by (rule boundedBy_snoc[OF bdu]) (simp add: js_le_Fin)
    have f2: "functionalTimes (p1 @ [pt2])"
      by (rule functionalTimes_later[OF fn1 bd1]) (use au in \<open>simp add: pt2_def\<close>)
    have b2b: "boundedBy (p1 @ [pt2]) (Fin b)"
      by (rule boundedBy_mono[OF b2]) (use ub in \<open>simp add: js_le_Fin\<close>)
    have s3: "sortedTimes ((p1 @ [pt2]) @ [pt3])"
      unfolding pt3_def by (rule sortedTimes_snoc[OF s2 b2b])
    have b3: "boundedBy ((p1 @ [pt2]) @ [pt3]) (Fin b)"
      unfolding pt3_def by (rule boundedBy_snoc[OF b2b]) (simp add: js_le_Fin)
    have f3: "functionalTimes ((p1 @ [pt2]) @ [pt3])"
    proof (cases "u = b")
      case True
      then have "pt3 = pt2" by (simp add: pt3_def pt2_def)
      then have "pt3 \<in> set (p1 @ [pt2])" by simp
      from functionalTimes_dup[OF f2 this] show ?thesis .
    next
      case False
      with ub have "js_lt (Fin u) (time_min pt3)" by (simp add: pt3_def)
      from functionalTimes_later[OF f2 b2 this] show ?thesis .
    qed
    from s3 b3 f3 True show ?thesis by (simp add: p2)
  next
    case False
    then have nc: "n = c" by (simp add: js_neq_def js_eq_iff)
    from au ub have ab: "a \<le> b" by simp
    have bdb: "boundedBy p1 (Fin b)"
      by (rule boundedBy_mono[OF bd1]) (use ab in \<open>simp add: js_le_Fin\<close>)
    have s3: "sortedTimes (p1 @ [pt3])" unfolding pt3_def by (rule sortedTimes_snoc[OF srt1 bdb])
    have b3: "boundedBy (p1 @ [pt3]) (Fin b)"
      unfolding pt3_def by (rule boundedBy_snoc[OF bdb]) (simp add: js_le_Fin)
    have f3: "functionalTimes (p1 @ [pt3])"
    proof (cases "a = b")
      case True
      then have "pt3 = last p1" by (simp add: pt3_def lsta nc)
      then have "pt3 \<in> set p1" using ne1 by simp
      from functionalTimes_dup[OF fn1 this] show ?thesis .
    next
      case ne: False
      with ab have "js_lt (Fin a) (time_min pt3)" by (simp add: pt3_def)
      from functionalTimes_later[OF fn1 bd1 this] show ?thesis .
    qed
    from s3 b3 f3 False show ?thesis by (simp add: p2)
  qed
  show ?thesis
    unfolding loopInv_def
  proof (intro exI[of _ \<tau>'] conjI)
    show "currentTimeSeconds (profileStep rnd tf gc st step) = Fin \<tau>'" by (simp add: step)
    show "\<tau>' = 0 \<or> 1 \<le> \<tau>'" using one by simp
    show "\<tau>' \<le> tmax" by (rule le')
    show "rnd \<tau>' = Fin \<tau>'" by (rule rep')
    show "calculatedProfile (profileStep rnd tf gc st step) \<noteq> []" by (simp add: step)
    show "last (calculatedProfile (profileStep rnd tf gc st step))
            = \<lparr>time_min = fl_div rnd (Fin \<tau>') (Fin 60),
               conc = currentConcentration (profileStep rnd tf gc st step)\<rparr>"
      by (simp add: step pt3_def tb)
    show "sortedTimes (calculatedProfile (profileStep rnd tf gc st step))"
      using result by (simp add: step)
    show "boundedBy (calculatedProfile (profileStep rnd tf gc st step))
            (fl_div rnd (Fin \<tau>') (Fin 60))"
      using result by (simp add: step tb)
    show "functionalTimes (calculatedProfile (profileStep rnd tf gc st step))"
      using result by (simp add: step)
  qed
qed

lemma regularFrom_Cons:
  assumes "regularFrom eps tmax rnd t (step # steps)"
  shows "correctRounding eps rnd" "0 \<le> eps" "2 * eps * tmax + 3 * eps \<le> 1"
    "atLeastTwoSeconds (durationSeconds step)"
    "js_le (fl_add rnd t (durationSeconds step)) (Fin tmax)"
    "regularFrom eps tmax rnd (fl_add rnd t (durationSeconds step)) steps"
  using assms by (simp_all add: regularFrom_def)

lemma profileLoop_loopInv:
  "loopInv rnd tmax st \<Longrightarrow> regularFrom eps tmax rnd (currentTimeSeconds st) steps \<Longrightarrow>
     loopInv rnd tmax (profileLoop rnd tf gc steps st)"
proof (induction steps arbitrary: st)
  case Nil
  then show ?case by simp
next
  case (Cons step steps)
  note r = regularFrom_Cons[OF Cons.prems(2)]
  have "loopInv rnd tmax (profileStep rnd tf gc st step)"
    by (rule profileStep_loopInv[OF r(1) r(2) r(3) Cons.prems(1) r(4) r(5)])
  moreover have "regularFrom eps tmax rnd
                   (currentTimeSeconds (profileStep rnd tf gc st step)) steps"
    using r(6) by (simp add: profileStep_time)
  ultimately show ?case using Cons.IH by simp
qed

lemma initialState_loopInv:
  assumes "correctRounding eps rnd" "0 \<le> tmax"
  shows "loopInv rnd tmax initialState"
  unfolding loopInv_def
proof (intro exI[of _ 0] conjI)
  show "currentTimeSeconds initialState = Fin 0" by (simp add: initialState_def)
  show "(0::real) = 0 \<or> 1 \<le> (0::real)" by simp
  show "0 \<le> tmax" by (rule assms(2))
  show "rnd 0 = Fin 0" by (rule rnd_zero[OF assms(1)])
  show "calculatedProfile initialState \<noteq> []" by (simp add: initialState_def)
  show "last (calculatedProfile initialState)
          = \<lparr>time_min = fl_div rnd (Fin 0) (Fin 60), conc = currentConcentration initialState\<rparr>"
    by (simp add: initialState_def fl_Fin rnd_zero[OF assms(1)])
  show "sortedTimes (calculatedProfile initialState)"
    by (simp add: initialState_def sortedTimes_def)
  show "boundedBy (calculatedProfile initialState) (fl_div rnd (Fin 0) (Fin 60))"
    by (simp add: initialState_def boundedBy_def fl_Fin rnd_zero[OF assms(1)] js_le_Fin)
  show "functionalTimes (calculatedProfile initialState)"
    by (simp add: initialState_def functionalTimes_def)
qed

lemma regularSchedule_loopInv:
  assumes "regularSchedule eps tmax rnd steps" "steps \<noteq> []"
  shows "loopInv rnd tmax (profileLoop rnd tf gc steps initialState)"
proof -
  from assms(1) have r: "regularFrom eps tmax rnd (Fin 0) steps"
    by (simp add: regularSchedule_def)
  then have cr: "correctRounding eps rnd" by (simp add: regularFrom_def)
  from assms(2) obtain step rest where s: "steps = step # rest" by (cases steps) auto
  have "js_le (Fin 0) (fl_add rnd (Fin 0) (durationSeconds step))"
  proof -
    from r s have "atLeastTwoSeconds (durationSeconds step)" by (simp add: regularFrom_def)
    then obtain \<delta> where "durationSeconds step = Fin \<delta>" "2 \<le> \<delta>"
      by (cases "durationSeconds step") (simp_all add: atLeastTwoSeconds_def)
    then show ?thesis
      using rnd_mono[OF cr, of 0 \<delta>] rnd_zero[OF cr] by (simp add: fl_Fin)
  qed
  moreover from r s have "js_le (fl_add rnd (Fin 0) (durationSeconds step)) (Fin tmax)"
    by (simp add: regularFrom_def)
  ultimately have "js_le (Fin 0) (Fin tmax)" by (rule js_le_trans)
  then have "0 \<le> tmax" by (simp add: js_le_Fin)
  from initialState_loopInv[OF cr this]
  have "loopInv rnd tmax initialState" .
  moreover have "regularFrom eps tmax rnd (currentTimeSeconds initialState) steps"
    using r by (simp add: initialState_def)
  ultimately show ?thesis by (rule profileLoop_loopInv)
qed


subsection \<open>Shape of the profile\<close>

lemmas builderDefs = calculateGasConcVsTime_def totalFlowrateOf_def gasConcCyl2Of_def
  initialState_def profileStep_def stepConcentration_def pushPoint1_def pushPoint2_def
  oneSecondInMinutes_def ensureStart_def fl_add_def fl_div_def fl_mul_def fl_def
  js_gt_def js_le_def js_neq_def Let_def

lemma exact_rounding:
  assumes "0 \<le> eps"
  shows "correctRounding eps Fin"
proof -
  have "(1 - eps) * x \<le> x \<and> x \<le> (1 + eps) * x" if "minNormal \<le> x" for x
  proof -
    have "0 < minNormal" by (simp add: minNormal_def)
    with that have x: "0 \<le> x" by linarith
    have "0 \<le> eps * x" using assms x by simp
    then show ?thesis by (simp add: algebra_simps)
  qed
  then show ?thesis by (simp add: correctRounding_def js_le_Fin)
qed

lemma double_bound: "2 * (1 / 2 ^ 53) * (2 ^ 52 - 2) + 3 * (1 / 2 ^ 53) \<le> (1::real)"
  by simp

lemma two_step_regular:
  "regularSchedule (1 / 2 ^ 53) (2 ^ 52 - 2) Fin
     [\<lparr>targetGasFlow = Fin 0, durationSeconds = Fin 60\<rparr>,
      \<lparr>targetGasFlow = Fin 100, durationSeconds = Fin 120\<rparr>]"
proof -
  have "correctRounding (1 / 2 ^ 53) Fin" by (rule exact_rounding) simp
  then show ?thesis
    using double_bound
    by (simp add: regularSchedule_def regularFrom_def atLeastTwoSeconds_def fl_add_def fl_def
          js_le_Fin)
qed

lemma two_step_profile:
  "calculateGasConcVsTime Fin
       (Some [\<lparr>targetGasFlow = Fin 0, durationSeconds = Fin 60\<rparr>,
            \<lparr>targetGasFlow = Fin 100, durationSeconds = Fin 120\<rparr>])
       (Some \<lparr>totalFlowrate = JNumber (Fin 500), gasConcCyl2 = JNumber (Fin 50)\<rparr>)
   = [\<lparr>time_min = Fin 0, conc = Fin 0\<rparr>, \<lparr>time_min = Fin 1, conc = Fin 0\<rparr>,
      \<lparr>time_min = Fin (61 / 60), conc = Fin 10\<rparr>, \<lparr>time_min = Fin 3, conc = Fin 10\<rparr>]"
  by (simp add: builderDefs)

lemma zero_duration_profile:
  "calculateGasConcVsTime Fin (Some [\<lparr>targetGasFlow = Fin 100, durationSeconds = Fin 0\<rparr>])
       (Some \<lparr>totalFlowrate = JNumber (Fin 500), gasConcCyl2 = JNumber (Fin 50)\<rparr>)
   = [\<lparr>time_min = Fin 0, conc = Fin 0\<rparr>, \<lparr>time_min = Fin (1 / 60), conc = Fin 10\<rparr>,
      \<lparr>time_min = Fin 0, conc = Fin 10\<rparr>]"
  by (simp add: builderDefs)

text \<open>
  Claim C2, as amended.  For every flow-step sequence, every configuration and every
  rounding, the profile returned by \<open>calculateGasConcVsTime\<close> begins with the point
  \<open>(0, 0)\<close> and holds no two consecutive points that are \<open>===\<close> in both fields.  Its
  times are non-decreasing on a regular schedule: every step lasts at least two seconds and
  the running time stays within the bound (for doubles, \<open>2 ^ 52 - 2\<close> seconds).
\<close>

theorem C2_profile_shape:
  "startsAtOrigin (calculateGasConcVsTime rnd gasFlowData config)
   \<and> noConsecutiveDuplicates (calculateGasConcVsTime rnd gasFlowData config)
   \<and> (regularSchedule eps tmax rnd (stepsOf gasFlowData)
        \<longrightarrow> nonDecreasingTimes (calculateGasConcVsTime rnd gasFlowData config))"
proof (cases "gasFlowData = None \<or> gasFlowData = Some []")
  case True
  then show ?thesis
    by (auto simp: calculate_empty startsAtOrigin_def noConsecutiveDuplicates_def
          nonDecreasingTimes_def)
next
  case False
  then obtain steps where g: "gasFlowData = Some steps" and ne: "steps \<noteq> []" by auto
  let ?loop = "profileLoop rnd (totalFlowrateOf config) (gasConcCyl2Of config) steps
                 initialState"
  have res: "calculateGasConcVsTime rnd gasFlowData config
               = deduplicate (calculatedProfile ?loop)"
    using g calculate_Some[OF ne] by simp
  have "startsAtOrigin (deduplicate (calculatedProfile ?loop))"
    by (intro startsAtOrigin_deduplicate profileLoop_origin initialState_origin)
  moreover have "noConsecutiveDuplicates (deduplicate (calculatedProfile ?loop))"
    by (rule deduplicate_no_dups)
  moreover have "nonDecreasingTimes (deduplicate (calculatedProfile ?loop))"
    if "regularSchedule eps tmax rnd steps"
  proof -
    have "loopInv rnd tmax ?loop" by (rule regularSchedule_loopInv[OF that ne])
    then have "sortedTimes (calculatedProfile ?loop)" unfolding loopInv_def by blast
    then have "sortedTimes (deduplicate (calculatedProfile ?loop))"
      unfolding sortedTimes_def by (rule sorted_wrt_deduplicate)
    then show ?thesis by (rule sortedTimes_nonDecreasing)
  qed
  ultimately show ?thesis using res g by (simp add: stepsOf_def)
qed

theorem C2_profile_shape_witness:
  "regularSchedule (1 / 2 ^ 53) (2 ^ 52 - 2) Fin (stepsOf (Some [\<lparr>targetGasFlow = Fin 0, durationSeconds = Fin 60\<rparr>,
            \<lparr>targetGasFlow = Fin 100, durationSeconds = Fin 120\<rparr>]))
   \<and> startsAtOrigin (calculateGasConcVsTime Fin (Some [\<lparr>targetGasFlow = Fin 0, durationSeconds = Fin 60\<rparr>,
            \<lparr>targetGasFlow = Fin 100, durationSeconds = Fin 120\<rparr>]) (Some \<lparr>totalFlowrate = JNumber (Fin 500), gasConcCyl2 = JNumber (Fin 50)\<rparr>))
   \<and> noConsecutiveDuplicates (calculateGasConcVsTime Fin (Some [\<lparr>targetGasFlow = Fin 0, durationSeconds = Fin 60\<rparr>,
            \<lparr>targetGasFlow = Fin 100, durationSeconds = Fin 120\<rparr>]) (Some \<lparr>totalFlowrate = JNumber (Fin 500), gasConcCyl2 = JNumber (Fin 50)\<rparr>))
   \<and> nonDecreasingTimes (calculateGasConcVsTime Fin (Some [\<lparr>targetGasFlow = Fin 0, durationSeconds = Fin 60\<rparr>,
            \<lparr>targetGasFlow = Fin 100, durationSeconds = Fin 120\<rparr>]) (Some \<lparr>totalFlowrate = JNumber (Fin 500), gasConcCyl2 = JNumber (Fin 50)\<rparr>))"
proof -
  have r: "regularSchedule (1 / 2 ^ 53) (2 ^ 52 - 2) Fin (stepsOf (Some [\<lparr>targetGasFlow = Fin 0, durationSeconds = Fin 60\<rparr>,
            \<lparr>targetGasFlow = Fin 100, durationSeconds = Fin 120\<rparr>]))"
    using two_step_regular by (simp add: stepsOf_def)
  from C2_profile_shape[of Fin "Some [\<lparr>targetGasFlow = Fin 0, durationSeconds = Fin 60\<rparr>,
            \<lparr>targetGasFlow = Fin 100, durationSeconds = Fin 120\<rparr>]" "(Some \<lparr>totalFlowrate = JNumber (Fin 500), gasConcCyl2 = JNumber (Fin 50)\<rparr>)" "1 / 2 ^ 53" "2 ^ 52 - 2"] r
  show ?thesis by blast
qed

text \<open>
  The claim as first stated fails on a step of duration zero: the point one second after
  the transition is followed by the point that closes the step, at an earlier time.  A step
  of one second is not enough either: in doubles \<open>31 / 60 + 1 / 60\<close> is above
  \<open>32 / 60\<close>, which is why the schedule asks for two seconds.
\<close>

theorem C2_counterexample:
  "\<not> nonDecreasingTimes
        (calculateGasConcVsTime Fin
           (Some [\<lparr>targetGasFlow = Fin 100, durationSeconds = Fin 0\<rparr>]) (Some \<lparr>totalFlowrate = JNumber (Fin 500), gasConcCyl2 = JNumber (Fin 50)\<rparr>))"
  by (simp add: zero_duration_profile nonDecreasingTimes_def js_le_def)

text \<open>
  Points whose concentration is NaN are never \<open>===\<close> to one another, so the
  deduplication keeps them: with a NaN total flow rate the closing point of a step is
  pushed a second time by the next step.
\<close>

lemma nan_points_repeat:
  "calculateGasConcVsTime Fin
       (Some [\<lparr>targetGasFlow = Fin 100, durationSeconds = Fin 60\<rparr>,
              \<lparr>targetGasFlow = Fin 100, durationSeconds = Fin 60\<rparr>])
       (Some \<lparr>totalFlowrate = JNumber NaN, gasConcCyl2 = JNumber (Fin 50)\<rparr>)
   = [\<lparr>time_min = Fin 0, conc = Fin 0\<rparr>, \<lparr>time_min = Fin (1 / 60), conc = NaN\<rparr>,
      \<lparr>time_min = Fin 1, conc = NaN\<rparr>, \<lparr>time_min = Fin 1, conc = NaN\<rparr>,
      \<lparr>time_min = Fin (61 / 60), conc = NaN\<rparr>, \<lparr>time_min = Fin 2, conc = NaN\<rparr>]"
  by (simp add: builderDefs)

subsection \<open>Sampling the points of a built profile\<close>

text \<open>
  Claim C4, as amended.  On a regular schedule each point \<open>(t, c)\<close> of the profile that
  \<open>calculateGasConcVsTime\<close> returns is sampled back: \<open>interpolateGasConcentration\<close>
  at \<open>t\<close> returns \<open>c\<close>.
\<close>

theorem C4_round_trip:
  assumes "regularSchedule eps tmax rnd (stepsOf gasFlowData)"
    and "p \<in> set (calculateGasConcVsTime rnd gasFlowData config)"
  shows "interpolateGasConcentration (Some (calculateGasConcVsTime rnd gasFlowData config))
           (time_min p) = conc p"
proof (cases "gasFlowData = None \<or> gasFlowData = Some []")
  case True
  with assms(2) have "calculateGasConcVsTime rnd gasFlowData config = [p]"
    and "p = \<lparr>time_min = Fin 0, conc = Fin 0\<rparr>"
    by (auto simp: calculate_empty)
  then show ?thesis
    by (simp add: interpolateGasConcentration_def js_le_def)
next
  case False
  then obtain steps where g: "gasFlowData = Some steps" and ne: "steps \<noteq> []" by auto
  let ?loop = "profileLoop rnd (totalFlowrateOf config) (gasConcCyl2Of config) steps
                 initialState"
  let ?raw = "calculatedProfile ?loop"
  have res: "calculateGasConcVsTime rnd gasFlowData config = deduplicate ?raw"
    using g calculate_Some[OF ne] by simp
  from assms(1) g have "regularSchedule eps tmax rnd steps" by (simp add: stepsOf_def)
  from regularSchedule_loopInv[OF this ne]
  have "loopInv rnd tmax ?loop" .
  then obtain v where sorted: "sortedTimes ?raw" and fn: "functionalTimes ?raw"
    and bd: "boundedBy ?raw v"
    unfolding loopInv_def by blast
  have sub: "set (deduplicate ?raw) \<subseteq> set ?raw" by (rule set_deduplicate)
  have s': "sortedTimes (deduplicate ?raw)"
    using sorted unfolding sortedTimes_def by (rule sorted_wrt_deduplicate)
  have f': "functionalTimes (deduplicate ?raw)"
    using fn sub unfolding functionalTimes_def by blast
  have d': "\<forall>q\<in>set (deduplicate ?raw). \<not> isNaN (time_min q)"
    using boundedBy_defined[OF bd] sub by blast
  from assms(2) have "p \<in> set (deduplicate ?raw)" by (simp add: res)
  from interpolate_roundTrip[OF s' f' d' this] show ?thesis by (simp add: res)
qed

text \<open>
  Without the bound on the durations the round trip fails: a step of duration zero leaves
  the point \<open>(0, 10)\<close> after the point \<open>(1/60, 10)\<close>, and the sampler at time 0 stops at
  the first point, of concentration 0.
\<close>

theorem C4_counterexample:
  "\<lparr>time_min = Fin 0, conc = Fin 10\<rparr>
     \<in> set (calculateGasConcVsTime Fin
              (Some [\<lparr>targetGasFlow = Fin 100, durationSeconds = Fin 0\<rparr>]) (Some \<lparr>totalFlowrate = JNumber (Fin 500), gasConcCyl2 = JNumber (Fin 50)\<rparr>))
   \<and> interpolateGasConcentration
        (Some (calculateGasConcVsTime Fin
                 (Some [\<lparr>targetGasFlow = Fin 100, durationSeconds = Fin 0\<rparr>]) (Some \<lparr>totalFlowrate = JNumber (Fin 500), gasConcCyl2 = JNumber (Fin 50)\<rparr>)))
        (Fin 0) \<noteq> Fin 10"
  by (simp add: zero_duration_profile interpolateGasConcentration_def js_le_def)

theorem C4_round_trip_witness:
  "regularSchedule (1 / 2 ^ 53) (2 ^ 52 - 2) Fin (stepsOf (Some [\<lparr>targetGasFlow = Fin 0, durationSeconds = Fin 60\<rparr>,
            \<lparr>targetGasFlow = Fin 100, durationSeconds = Fin 120\<rparr>]))
   \<and> \<lparr>time_min = Fin (61 / 60), conc = Fin 10\<rparr>
       \<in> set (calculateGasConcVsTime Fin (Some [\<lparr>targetGasFlow = Fin 0, durationSeconds = Fin 60\<rparr>,
            \<lparr>targetGasFlow = Fin 100, durationSeconds = Fin 120\<rparr>]) (Some \<lparr>totalFlowrate = JNumber (Fin 500), gasConcCyl2 = JNumber (Fin 50)\<rparr>))
   \<and> interpolateGasConcentration (Some (calculateGasConcVsTime Fin (Some [\<lparr>targetGasFlow = Fin 0, durationSeconds = Fin 60\<rparr>,
            \<lparr>targetGasFlow = Fin 100, durationSeconds = Fin 120\<rparr>]) (Some \<lparr>totalFlowrate = JNumber (Fin 500), gasConcCyl2 = JNumber (Fin 50)\<rparr>)))
        (Fin (61 / 60)) = Fin 10"
proof -
  have r: "regularSchedule (1 / 2 ^ 53) (2 ^ 52 - 2) Fin (stepsOf (Some [\<lparr>targetGasFlow = Fin 0, durationSeconds = Fin 60\<rparr>,
            \<lparr>targetGasFlow = Fin 100, durationSeconds = Fin 120\<rparr>]))"
    using two_step_regular by (simp add: stepsOf_def)
  have m: "\<lparr>time_min = Fin (61 / 60), conc = Fin 10\<rparr>
             \<in> set (calculateGasConcVsTime Fin (Some [\<lparr>targetGasFlow = Fin 0, durationSeconds = Fin 60\<rparr>,
            \<lparr>targetGasFlow = Fin 100, durationSeconds = Fin 120\<rparr>]) (Some \<lparr>totalFlowrate = JNumber (Fin 500), gasConcCyl2 = JNumber (Fin 50)\<rparr>))"
    by (simp add: two_step_profile)
  from C4_round_trip[OF r m] r m show ?thesis by simp
qed


subsection \<open>Defaults of the configuration\<close>

lemma numberOr_default: "\<not> typeofNumber v \<Longrightarrow> numberOr v d = d"
  by (cases v) simp_all

text \<open>
  Claim C10.  A missing configuration is read as total flow rate 500 and cylinder
  concentration 0; a \<open>totalFlowrate\<close> that is not of type number is read as 500 and a
  \<open>gasConcCyl2\<close> that is not of type number as 0.  The function has no error exit: in
  each of these cases it returns the profile that the loop builds with the default value.
\<close>

theorem C10_config_defaults:
  "totalFlowrateOf None = Fin 500
   \<and> gasConcCyl2Of None = Fin 0
   \<and> (\<not> typeofNumber tf
        \<longrightarrow> totalFlowrateOf (Some \<lparr>totalFlowrate = tf, gasConcCyl2 = gc\<rparr>) = Fin 500)
   \<and> (\<not> typeofNumber gc
        \<longrightarrow> gasConcCyl2Of (Some \<lparr>totalFlowrate = tf, gasConcCyl2 = gc\<rparr>) = Fin 0)
   \<and> (steps \<noteq> []
        \<longrightarrow> calculateGasConcVsTime rnd (Some steps) None
            = deduplicate (calculatedProfile
                (profileLoop rnd (Fin 500) (Fin 0) steps initialState)))
   \<and> (steps \<noteq> [] \<and> \<not> typeofNumber tf
        \<longrightarrow> calculateGasConcVsTime rnd (Some steps)
              (Some \<lparr>totalFlowrate = tf, gasConcCyl2 = JNumber g\<rparr>)
            = deduplicate (calculatedProfile
                (profileLoop rnd (Fin 500) g steps initialState)))
   \<and> (steps \<noteq> [] \<and> \<not> typeofNumber gc
        \<longrightarrow> calculateGasConcVsTime rnd (Some steps)
              (Some \<lparr>totalFlowrate = JNumber f, gasConcCyl2 = gc\<rparr>)
            = deduplicate (calculatedProfile
                (profileLoop rnd f (Fin 0) steps initialState)))
   \<and> calculateGasConcVsTime rnd gasFlowData None
       = calculateGasConcVsTime rnd gasFlowData
           (Some \<lparr>totalFlowrate = JNumber (Fin 500), gasConcCyl2 = JNumber (Fin 0)\<rparr>)
   \<and> (\<not> typeofNumber tf
        \<longrightarrow> calculateGasConcVsTime rnd gasFlowData
              (Some \<lparr>totalFlowrate = tf, gasConcCyl2 = gc\<rparr>)
            = calculateGasConcVsTime rnd gasFlowData
                (Some \<lparr>totalFlowrate = JNumber (Fin 500), gasConcCyl2 = gc\<rparr>))
   \<and> (\<not> typeofNumber gc
        \<longrightarrow> calculateGasConcVsTime rnd gasFlowData
              (Some \<lparr>totalFlowrate = tf, gasConcCyl2 = gc\<rparr>)
            = calculateGasConcVsTime rnd gasFlowData
                (Some \<lparr>totalFlowrate = tf, gasConcCyl2 = JNumber (Fin 0)\<rparr>))"
proof (intro conjI impI)
  show "totalFlowrateOf None = Fin 500" by (simp add: totalFlowrateOf_def)
  show "gasConcCyl2Of None = Fin 0" by (simp add: gasConcCyl2Of_def)
  show "totalFlowrateOf (Some \<lparr>totalFlowrate = tf, gasConcCyl2 = gc\<rparr>) = Fin 500"
    if "\<not> typeofNumber tf"
    using that by (simp add: totalFlowrateOf_def numberOr_default)
  show "gasConcCyl2Of (Some \<lparr>totalFlowrate = tf, gasConcCyl2 = gc\<rparr>) = Fin 0"
    if "\<not> typeofNumber gc"
    using that by (simp add: gasConcCyl2Of_def numberOr_default)
  show "calculateGasConcVsTime rnd (Some steps) None
          = deduplicate (calculatedProfile
              (profileLoop rnd (Fin 500) (Fin 0) steps initialState))"
    if "steps \<noteq> []"
    using calculate_Some[OF that, of rnd None]
    by (simp add: totalFlowrateOf_def gasConcCyl2Of_def)
  show "calculateGasConcVsTime rnd (Some steps)
            (Some \<lparr>totalFlowrate = tf, gasConcCyl2 = JNumber g\<rparr>)
          = deduplicate (calculatedProfile
              (profileLoop rnd (Fin 500) g steps initialState))"
    if "steps \<noteq> [] \<and> \<not> typeofNumber tf"
    using that calculate_Some[of steps rnd "Some \<lparr>totalFlowrate = tf, gasConcCyl2 = JNumber g\<rparr>"]
    by (simp add: totalFlowrateOf_def gasConcCyl2Of_def numberOr_default)
  show "calculateGasConcVsTime rnd (Some steps)
            (Some \<lparr>totalFlowrate = JNumber f, gasConcCyl2 = gc\<rparr>)
          = deduplicate (calculatedProfile
              (profileLoop rnd f (Fin 0) steps initialState))"
    if "steps \<noteq> [] \<and> \<not> typeofNumber gc"
    using that calculate_Some[of steps rnd "Some \<lparr>totalFlowrate = JNumber f, gasConcCyl2 = gc\<rparr>"]
    by (simp add: totalFlowrateOf_def gasConcCyl2Of_def numberOr_default)
  show "calculateGasConcVsTime rnd gasFlowData None
       = calculateGasConcVsTime rnd gasFlowData
           (Some \<lparr>totalFlowrate = JNumber (Fin 500), gasConcCyl2 = JNumber (Fin 0)\<rparr>)"
    by (simp add: calculateGasConcVsTime_def totalFlowrateOf_def gasConcCyl2Of_def)
  show "calculateGasConcVsTime rnd gasFlowData
              (Some \<lparr>totalFlowrate = tf, gasConcCyl2 = gc\<rparr>)
            = calculateGasConcVsTime rnd gasFlowData
                (Some \<lparr>totalFlowrate = JNumber (Fin 500), gasConcCyl2 = gc\<rparr>)"
    if "\<not> typeofNumber tf"
    using that
    by (simp add: calculateGasConcVsTime_def totalFlowrateOf_def gasConcCyl2Of_def
          numberOr_default)
  show "calculateGasConcVsTime rnd gasFlowData
              (Some \<lparr>totalFlowrate = tf, gasConcCyl2 = gc\<rparr>)
            = calculateGasConcVsTime rnd gasFlowData
                (Some \<lparr>totalFlowrate = tf, gasConcCyl2 = JNumber (Fin 0)\<rparr>)"
    if "\<not> typeofNumber gc"
    using that
    by (simp add: calculateGasConcVsTime_def totalFlowrateOf_def gasConcCyl2Of_def
          numberOr_default)
qed

lemma default_flow_loop:
  "deduplicate (calculatedProfile
     (profileLoop Fin (Fin 500) (Fin 50)
        [\<lparr>targetGasFlow = Fin 100, durationSeconds = Fin 60\<rparr>] initialState))
   = [\<lparr>time_min = Fin 0, conc = Fin 0\<rparr>, \<lparr>time_min = Fin (1 / 60), conc = Fin 10\<rparr>,
      \<lparr>time_min = Fin 1, conc = Fin 10\<rparr>]"
  by (simp add: builderDefs)

lemma default_conc_loop:
  "deduplicate (calculatedProfile
     (profileLoop Fin (Fin 250) (Fin 0)
        [\<lparr>targetGasFlow = Fin 100, durationSeconds = Fin 60\<rparr>] initialState))
   = [\<lparr>time_min = Fin 0, conc = Fin 0\<rparr>, \<lparr>time_min = Fin 1, conc = Fin 0\<rparr>]"
  by (simp add: builderDefs)

theorem C10_config_defaults_witness:
  "\<not> typeofNumber (JString ''fast'') \<and> \<not> typeofNumber JUndefined
   \<and> [\<lparr>targetGasFlow = Fin 100, durationSeconds = Fin 60\<rparr>] \<noteq> []
   \<and> calculateGasConcVsTime Fin (Some [\<lparr>targetGasFlow = Fin 100, durationSeconds = Fin 60\<rparr>])
        (Some \<lparr>totalFlowrate = JString ''fast'', gasConcCyl2 = JNumber (Fin 50)\<rparr>)
     = [\<lparr>time_min = Fin 0, conc = Fin 0\<rparr>, \<lparr>time_min = Fin (1 / 60), conc = Fin 10\<rparr>,
        \<lparr>time_min = Fin 1, conc = Fin 10\<rparr>]
   \<and> calculateGasConcVsTime Fin (Some [\<lparr>targetGasFlow = Fin 100, durationSeconds = Fin 60\<rparr>])
        (Some \<lparr>totalFlowrate = JNumber (Fin 250), gasConcCyl2 = JUndefined\<rparr>)
     = [\<lparr>time_min = Fin 0, conc = Fin 0\<rparr>, \<lparr>time_min = Fin 1, conc = Fin 0\<rparr>]"
proof -
  have 1: "\<not> typeofNumber (JString ''fast'')" and 2: "\<not> typeofNumber JUndefined"
    and 3: "[\<lparr>targetGasFlow = Fin 100, durationSeconds = Fin 60\<rparr>] \<noteq> []"
    by simp_all
  note th = C10_config_defaults
              [where tf = "JString ''fast''" and gc = JUndefined and rnd = Fin
                 and steps = "[\<lparr>targetGasFlow = Fin 100, durationSeconds = Fin 60\<rparr>]"
                 and g = "Fin 50" and f = "Fin 250"]
  from th 1 3
  have a: "calculateGasConcVsTime Fin
             (Some [\<lparr>targetGasFlow = Fin 100, durationSeconds = Fin 60\<rparr>])
             (Some \<lparr>totalFlowrate = JString ''fast'', gasConcCyl2 = JNumber (Fin 50)\<rparr>)
           = deduplicate (calculatedProfile
               (profileLoop Fin (Fin 500) (Fin 50)
                  [\<lparr>targetGasFlow = Fin 100, durationSeconds = Fin 60\<rparr>] initialState))"
    by blast
  from th 2 3
  have b: "calculateGasConcVsTime Fin
             (Some [\<lparr>targetGasFlow = Fin 100, durationSeconds = Fin 60\<rparr>])
             (Some \<lparr>totalFlowrate = JNumber (Fin 250), gasConcCyl2 = JUndefined\<rparr>)
           = deduplicate (calculatedProfile
               (profileLoop Fin (Fin 250) (Fin 0)
                  [\<lparr>targetGasFlow = Fin 100, durationSeconds = Fin 60\<rparr>] initialState))"
    by blast
  from a b 1 2 3 show ?thesis by (simp only: default_flow_loop default_conc_loop) simp
qed

section \<open>The sensor signal processor\<close>

lemmas colDefs = minRequiredCols_def timeColIdx_def impedanceColIdx_def phaseColIdx_def

lemma scenario_table:
  "processedTable sampleDateMs sampleParseFloat scenarioRows
   = [\<lparr>original_time_s = ''01/01/2024 00:00:00'', time_s = Fin 0, time_min_row = Fin 0,
     impedance = Fin 100, phase = Fin 0, signal = NaN, gas_concentration = NaN\<rparr>,
   \<lparr>original_time_s = ''01/01/2024 00:01:00'', time_s = Fin 60, time_min_row = Fin 1,
     impedance = Fin 100, phase = Fin 0, signal = NaN, gas_concentration = NaN\<rparr>,
   \<lparr>original_time_s = ''01/01/2024 00:02:00'', time_s = Fin 120, time_min_row = Fin 2,
     impedance = Fin 150, phase = Fin 0, signal = NaN, gas_concentration = NaN\<rparr>,
   \<lparr>original_time_s = ''01/01/2024 00:03:00'', time_s = Fin 180, time_min_row = Fin 3,
     impedance = Fin 100, phase = Fin 0, signal = NaN, gas_concentration = NaN\<rparr>]"
  by (simp add: scenarioRows_def processedTable_def parseRow_def sampleRow_def sampleDateMs_def
        sampleParseFloat_def colDefs msOf_def js_sub_def Let_def)


lemma processFile_Some:
  "processFile dateMs parseFloat refT prof avail (Some raw) = Some out
   \<longleftrightarrow> raw \<noteq> [] \<and> \<not> length (hd raw) < minRequiredCols
       \<and> out = map (finishRow (imp_ref refT (processedTable dateMs parseFloat raw)) avail prof)
                 (processedTable dateMs parseFloat raw)"
  by (cases raw) (auto simp: processFile_def Let_def)

lemma processFile_None:
  "processFile dateMs parseFloat refT prof avail (Some raw) = None
   \<longleftrightarrow> raw = [] \<or> length (hd raw) < minRequiredCols"
  by (cases raw) (auto simp: processFile_def Let_def)

lemma processedTable_map:
  "processedTable dateMs parseFloat raw
     = map (parseRow dateMs parseFloat (msOf (dateMs (hd raw ! timeColIdx)))) raw"
  by (cases raw) (simp_all add: processedTable_def)

lemma length_processedTable: "length (processedTable dateMs parseFloat raw) = length raw"
  by (simp add: processedTable_map)

lemma parseRow_short:
  "length row < minRequiredCols \<Longrightarrow> allUndefined (parseRow dateMs parseFloat t0 row)"
  by (simp add: parseRow_def allUndefined_def)

lemma parseRow_full:
  "\<not> length row < minRequiredCols \<Longrightarrow>
     original_time_s (parseRow dateMs parseFloat t0 row) = row ! timeColIdx
     \<and> impedance (parseRow dateMs parseFloat t0 row) = parseFloat (row ! impedanceColIdx)
     \<and> phase (parseRow dateMs parseFloat t0 row) = parseFloat (row ! phaseColIdx)"
  by (simp add: parseRow_def Let_def)

lemma parseRow_no_anchor: "isNaN (time_min_row (parseRow dateMs parseFloat NaN row))"
  by (simp add: parseRow_def Let_def)

lemma parseRow_anchor:
  "\<not> length row < minRequiredCols \<Longrightarrow> dateMs (row ! timeColIdx) = Some ms \<Longrightarrow>
     time_min_row (parseRow dateMs parseFloat (msOf (Some ms)) row) = Fin 0"
  by (simp add: parseRow_def Let_def msOf_def js_sub_def)

lemma finishRow_fields:
  "original_time_s (finishRow b avail prof row) = original_time_s row"
  "time_s (finishRow b avail prof row) = time_s row"
  "time_min_row (finishRow b avail prof row) = time_min_row row"
  "phase (finishRow b avail prof row) = phase row"
  by (simp_all add: finishRow_def Let_def)

lemma finishRow_impedance:
  "impedance (finishRow b avail prof row)
     = (if js_gt (impedance row) (Fin 1000000000000) then NaN else impedance row)"
  by (simp add: finishRow_def Let_def)

lemma finishRow_signal:
  "signal (finishRow b avail prof row)
     = (if \<not> isNaN b \<and> js_neq b (Fin 0) \<and> \<not> isNaN (impedance row)
        then (if js_gt (js_abs (js_mul (js_div (js_sub (impedance row) b) b) (Fin 100)))
                   (Fin 10000)
              then NaN
              else js_mul (js_div (js_sub (impedance row) b) b) (Fin 100))
        else NaN)"
  by (simp add: finishRow_def Let_def js_gt_def)

lemma finishRow_undefined: "allUndefined row \<Longrightarrow> allUndefined (finishRow b avail prof row)"
  by (simp add: finishRow_def allUndefined_def Let_def js_gt_def)

text \<open>
  The first row of a processed file has time 0 when its timestamp parses; when it does
  not, no row of the file has a defined time.
\<close>

lemma table_times:
  assumes "raw \<noteq> []" "\<not> length (hd raw) < minRequiredCols"
  shows "(\<forall>r\<in>set (processedTable dateMs parseFloat raw). isNaN (time_min_row r))
         \<or> \<not> isNaN (time_min_row (hd (processedTable dateMs parseFloat raw)))"
proof (cases "dateMs (hd raw ! timeColIdx)")
  case None
  then show ?thesis by (auto simp: processedTable_map msOf_def parseRow_no_anchor)
next
  case (Some ms)
  from assms(1) have "hd (processedTable dateMs parseFloat raw)
      = parseRow dateMs parseFloat (msOf (dateMs (hd raw ! timeColIdx))) (hd raw)"
    by (simp add: processedTable_map hd_map)
  with parseRow_anchor[where row = "hd raw" and dateMs = dateMs and ms = ms
                          and parseFloat = parseFloat] assms(2) Some
  show ?thesis by simp
qed

lemma filter_positions:
  "map (nth xs) (filter (\<lambda>i. P (xs ! i)) [0..<length xs]) = filter P xs"
proof -
  have "filter P xs = filter P (map (nth xs) [0..<length xs])" by (simp add: map_nth)
  also have "\<dots> = map (nth xs) (filter (P \<circ> nth xs) [0..<length xs])" by (rule filter_map)
  finally show ?thesis by (simp add: comp_def)
qed

lemma refIdx_baselineRow:
  assumes "table \<noteq> []"
    and "(\<forall>r\<in>set table. isNaN (time_min_row r)) \<or> \<not> isNaN (time_min_row (hd table))"
  shows "case baselineRow refT table of
           None \<Rightarrow> refIdx refT table = None
         | Some r \<Rightarrow> \<exists>i<length table. refIdx refT table = Some i \<and> table ! i = r"
proof -
  let ?P = "\<lambda>r. \<not> isNaN (time_min_row r) \<and> js_le (time_min_row r) refT"
  let ?idxs = "filter (\<lambda>i. ?P (table ! i)) [0..<length table]"
  have pos: "map (nth table) ?idxs = filter ?P table" by (rule filter_positions)
  show ?thesis
  proof (cases "filter ?P table = []")
    case False
    with pos have ne: "?idxs \<noteq> []" by auto
    then have "last ?idxs \<in> set ?idxs" by (rule last_in_set)
    then have lt: "last ?idxs < length table" by simp
    have "last (filter ?P table) = last (map (nth table) ?idxs)" by (simp only: pos)
    also have "\<dots> = table ! last ?idxs" using ne by (rule last_map)
    finally have "last (filter ?P table) = table ! last ?idxs" .
    moreover have "refIdx refT table = Some (last ?idxs)"
      using ne by (simp add: refIdx_def Let_def)
    moreover have "baselineRow refT table = Some (last (filter ?P table))"
      using False by (cases "filter ?P table") (simp_all add: baselineRow_def)
    ultimately show ?thesis using lt by simp
  next
    case True
    with pos have e: "?idxs = []" by auto
    show ?thesis
    proof (cases "\<forall>r\<in>set table. isNaN (time_min_row r)")
      case allNaN: True
      then have "filter (\<lambda>r. \<not> isNaN (time_min_row r)) table = []"
        by (simp add: filter_empty_conv)
      moreover from allNaN assms(1) have "isNaN (time_min_row (hd table))" by simp
      ultimately show ?thesis using True e by (simp add: baselineRow_def refIdx_def Let_def)
    next
      case False
      with assms(2) have d: "\<not> isNaN (time_min_row (hd table))" by blast
      from assms(1) obtain r rs where t: "table = r # rs" by (cases table) auto
      with d have "filter (\<lambda>r. \<not> isNaN (time_min_row r)) table
                     = r # filter (\<lambda>r. \<not> isNaN (time_min_row r)) rs" by simp
      then have "baselineRow refT table = Some r"
        using True by (simp add: baselineRow_def)
      moreover have "refIdx refT table = Some 0"
        using e d assms(1) by (simp add: refIdx_def Let_def)
      ultimately show ?thesis using t by simp
    qed
  qed
qed

lemma imp_ref_baselineRow:
  assumes "table \<noteq> []"
    and "(\<forall>r\<in>set table. isNaN (time_min_row r)) \<or> \<not> isNaN (time_min_row (hd table))"
  shows "imp_ref refT table = (case baselineRow refT table of None \<Rightarrow> NaN | Some r \<Rightarrow> impedance r)"
proof (cases "baselineRow refT table")
  case None
  with refIdx_baselineRow[OF assms, of refT] show ?thesis by (simp add: imp_ref_def)
next
  case (Some r)
  with refIdx_baselineRow[OF assms, of refT]
  obtain i where "i < length table" "refIdx refT table = Some i" "table ! i = r" by auto
  with Some show ?thesis by (cases "impedance r") (simp_all add: imp_ref_def)
qed


lemmas sampleDefs = sampleRow_def sampleDateMs_def sampleParseFloat_def
lemmas parseDefs = processedTable_def parseRow_def colDefs msOf_def js_sub_def Let_def
lemmas refDefs = imp_ref_def refIdx_def js_le_def Let_def
lemmas finishDefs = finishRow_def js_sub_def js_gt_def js_neq_def Let_def

lemma processFile_eval:
  assumes "raw \<noteq> []" "\<not> length (hd raw) < minRequiredCols"
    and "imp_ref refT (processedTable dateMs parseFloat raw) = b"
  shows "processFile dateMs parseFloat refT prof avail (Some raw)
           = Some (map (finishRow b avail prof) (processedTable dateMs parseFloat raw))"
  using assms by (simp add: processFile_Some)

lemma scenario_imp_ref:
  "imp_ref (Fin (3 / 2)) (processedTable sampleDateMs sampleParseFloat scenarioRows) = Fin 100"
  by (simp add: scenario_table refDefs)

lemma scenario_result:
  "processFile sampleDateMs sampleParseFloat (Fin (3 / 2)) [] False (Some scenarioRows)
   = Some [\<lparr>original_time_s = ''01/01/2024 00:00:00'', time_s = Fin 0, time_min_row = Fin 0,
     impedance = Fin 100, phase = Fin 0, signal = Fin 0, gas_concentration = NaN\<rparr>,
   \<lparr>original_time_s = ''01/01/2024 00:01:00'', time_s = Fin 60, time_min_row = Fin 1,
     impedance = Fin 100, phase = Fin 0, signal = Fin 0, gas_concentration = NaN\<rparr>,
   \<lparr>original_time_s = ''01/01/2024 00:02:00'', time_s = Fin 120, time_min_row = Fin 2,
     impedance = Fin 150, phase = Fin 0, signal = Fin 50, gas_concentration = NaN\<rparr>,
   \<lparr>original_time_s = ''01/01/2024 00:03:00'', time_s = Fin 180, time_min_row = Fin 3,
     impedance = Fin 100, phase = Fin 0, signal = Fin 0, gas_concentration = NaN\<rparr>]"
proof -
  have "scenarioRows \<noteq> []" "\<not> length (hd scenarioRows) < minRequiredCols"
    by (simp_all add: scenarioRows_def sampleRow_def colDefs)
  from processFile_eval[OF this scenario_imp_ref]
  show ?thesis by (simp add: scenario_table finishDefs)
qed


lemma noBaseline_imp_ref:
  "imp_ref (Fin (3 / 2)) (processedTable sampleDateMs sampleParseFloat noBaselineRows) = NaN"
  by (simp add: noBaselineRows_def sampleDefs parseDefs refDefs)

lemma noBaseline_result:
  "processFile sampleDateMs sampleParseFloat (Fin (3 / 2)) [] False (Some noBaselineRows)
   = Some [\<lparr>original_time_s = ''01/01/2024 00:00:00'', time_s = Fin 0, time_min_row = Fin 0,
     impedance = Fin 100, phase = Fin 0, signal = NaN, gas_concentration = NaN\<rparr>,
      \<lparr>original_time_s = ''01/01/2024 00:01:00'', time_s = Fin 60, time_min_row = Fin 1,
        impedance = NaN, phase = Fin 0, signal = NaN, gas_concentration = NaN\<rparr>,
      \<lparr>original_time_s = ''01/01/2024 00:02:00'', time_s = Fin 120, time_min_row = Fin 2,
        impedance = Fin 150, phase = Fin 0, signal = NaN, gas_concentration = NaN\<rparr>]"
proof -
  have "noBaselineRows \<noteq> []" "\<not> length (hd noBaselineRows) < minRequiredCols"
    by (simp_all add: noBaselineRows_def sampleRow_def colDefs)
  from processFile_eval[OF this noBaseline_imp_ref]
  show ?thesis by (simp add: noBaselineRows_def sampleDefs parseDefs finishDefs)
qed

lemma outlier_imp_ref:
  "imp_ref (Fin 0) (processedTable sampleDateMs sampleParseFloat outlierRows) = Fin 1"
  by (simp add: outlierRows_def sampleDefs parseDefs refDefs)

lemma outlier_result:
  "processFile sampleDateMs sampleParseFloat (Fin 0) [] False (Some outlierRows)
   = Some [\<lparr>original_time_s = ''01/01/2024 00:00:00'', time_s = Fin 0, time_min_row = Fin 0,
     impedance = Fin 1, phase = Fin 0, signal = Fin 0, gas_concentration = NaN\<rparr>,
      \<lparr>original_time_s = ''01/01/2024 00:01:00'', time_s = Fin 60, time_min_row = Fin 1,
        impedance = Fin 1000, phase = Fin 0, signal = NaN, gas_concentration = NaN\<rparr>]"
proof -
  have "outlierRows \<noteq> []" "\<not> length (hd outlierRows) < minRequiredCols"
    by (simp_all add: outlierRows_def sampleRow_def colDefs)
  from processFile_eval[OF this outlier_imp_ref]
  show ?thesis by (simp add: outlierRows_def sampleDefs parseDefs finishDefs)
qed

lemma overflow_imp_ref:
  "imp_ref (Fin 0) (processedTable sampleDateMs sampleParseFloat overflowRows) = Fin 100"
  by (simp add: overflowRows_def sampleDefs parseDefs refDefs)

lemma overflow_result:
  "processFile sampleDateMs sampleParseFloat (Fin 0) [] False (Some overflowRows)
   = Some [\<lparr>original_time_s = ''01/01/2024 00:00:00'', time_s = Fin 0, time_min_row = Fin 0,
     impedance = Fin 100, phase = Fin 0, signal = Fin 0, gas_concentration = NaN\<rparr>,
      \<lparr>original_time_s = ''01/01/2024 00:01:00'', time_s = Fin 60, time_min_row = Fin 1,
        impedance = NaN, phase = Fin 0, signal = NaN, gas_concentration = NaN\<rparr>]"
proof -
  have "overflowRows \<noteq> []" "\<not> length (hd overflowRows) < minRequiredCols"
    by (simp_all add: overflowRows_def sampleRow_def colDefs)
  from processFile_eval[OF this overflow_imp_ref]
  show ?thesis by (simp add: overflowRows_def sampleDefs parseDefs finishDefs)
qed

lemma negative_imp_ref:
  "imp_ref (Fin 0) (processedTable sampleDateMs sampleParseFloat negativeRows) = Fin 100"
  by (simp add: negativeRows_def sampleDefs parseDefs refDefs)

lemma negative_result:
  "processFile sampleDateMs sampleParseFloat (Fin 0) [] False (Some negativeRows)
   = Some [\<lparr>original_time_s = ''01/01/2024 00:00:00'', time_s = Fin 0, time_min_row = Fin 0,
     impedance = Fin 100, phase = Fin 0, signal = Fin 0, gas_concentration = NaN\<rparr>,
      \<lparr>original_time_s = ''01/01/2024 00:01:00'', time_s = Fin 60, time_min_row = Fin 1,
        impedance = Fin (- 2000000000000), phase = Fin 0, signal = NaN, gas_concentration = NaN\<rparr>]"
proof -
  have "negativeRows \<noteq> []" "\<not> length (hd negativeRows) < minRequiredCols"
    by (simp_all add: negativeRows_def sampleRow_def colDefs)
  from processFile_eval[OF this negative_imp_ref]
  show ?thesis by (simp add: negativeRows_def sampleDefs parseDefs finishDefs)
qed

lemma shortRow_imp_ref:
  "imp_ref (Fin 0) (processedTable sampleDateMs sampleParseFloat shortRowRows) = Fin 100"
  by (simp add: shortRowRows_def sampleDefs parseDefs refDefs)

lemma shortRow_result:
  "processFile sampleDateMs sampleParseFloat (Fin 0) [] False (Some shortRowRows)
   = Some [\<lparr>original_time_s = ''01/01/2024 00:00:00'', time_s = Fin 0, time_min_row = Fin 0,
     impedance = Fin 100, phase = Fin 0, signal = Fin 0, gas_concentration = NaN\<rparr>,
      \<lparr>original_time_s = ''01/01/2024 00:01:00'', time_s = NaN, time_min_row = NaN,
        impedance = NaN, phase = NaN, signal = NaN, gas_concentration = NaN\<rparr>,
      \<lparr>original_time_s = ''01/01/2024 00:02:00'', time_s = Fin 120, time_min_row = Fin 2,
        impedance = Fin 150, phase = Fin 0, signal = Fin 50, gas_concentration = NaN\<rparr>]"
proof -
  have "shortRowRows \<noteq> []" "\<not> length (hd shortRowRows) < minRequiredCols"
    by (simp_all add: shortRowRows_def sampleRow_def colDefs)
  from processFile_eval[OF this shortRow_imp_ref]
  show ?thesis by (simp add: shortRowRows_def sampleDefs parseDefs finishDefs)
qed

lemma shortFirst_result:
  "processFile sampleDateMs sampleParseFloat refT prof avail (Some shortFirstRows) = None"
  by (simp add: processFile_None shortFirstRows_def colDefs)


text \<open>
  Claim C5.  In every processed file the reference impedance \<open>imp_ref\<close> is the impedance
  of the baseline row of the specification (NaN when no row has a defined time), and when
  it is NaN the signal of every row of the file is NaN.
\<close>

theorem C5_baseline_selection:
  assumes "processFile dateMs parseFloat refT prof avail (Some raw) = Some out"
  shows "imp_ref refT (processedTable dateMs parseFloat raw)
           = (case baselineRow refT (processedTable dateMs parseFloat raw) of
                None \<Rightarrow> NaN | Some r \<Rightarrow> impedance r)
         \<and> (isNaN (imp_ref refT (processedTable dateMs parseFloat raw))
              \<longrightarrow> (\<forall>row\<in>set out. isNaN (signal row)))"
proof -
  let ?table = "processedTable dateMs parseFloat raw"
  from assms have ne: "raw \<noteq> []" and full: "\<not> length (hd raw) < minRequiredCols"
    and out: "out = map (finishRow (imp_ref refT ?table) avail prof) ?table"
    by (simp_all add: processFile_Some)
  from ne have tne: "?table \<noteq> []" by (simp add: processedTable_map)
  have "imp_ref refT ?table = (case baselineRow refT ?table of None \<Rightarrow> NaN | Some r \<Rightarrow> impedance r)"
    by (rule imp_ref_baselineRow[OF tne table_times[OF ne full]])
  moreover have "\<forall>row\<in>set out. isNaN (signal row)" if "isNaN (imp_ref refT ?table)"
    using that by (auto simp: out finishRow_signal)
  ultimately show ?thesis by blast
qed

theorem C5_baseline_selection_witness:
  "processFile sampleDateMs sampleParseFloat (Fin (3 / 2)) [] False (Some noBaselineRows)
     = Some [\<lparr>original_time_s = ''01/01/2024 00:00:00'', time_s = Fin 0, time_min_row = Fin 0,
               impedance = Fin 100, phase = Fin 0, signal = NaN, gas_concentration = NaN\<rparr>,
             \<lparr>original_time_s = ''01/01/2024 00:01:00'', time_s = Fin 60, time_min_row = Fin 1,
               impedance = NaN, phase = Fin 0, signal = NaN, gas_concentration = NaN\<rparr>,
             \<lparr>original_time_s = ''01/01/2024 00:02:00'', time_s = Fin 120, time_min_row = Fin 2,
               impedance = Fin 150, phase = Fin 0, signal = NaN, gas_concentration = NaN\<rparr>]
   \<and> baselineRow (Fin (3 / 2)) (processedTable sampleDateMs sampleParseFloat noBaselineRows)
       = Some \<lparr>original_time_s = ''01/01/2024 00:01:00'', time_s = Fin 60, time_min_row = Fin 1,
               impedance = NaN, phase = Fin 0, signal = NaN, gas_concentration = NaN\<rparr>
   \<and> imp_ref (Fin (3 / 2)) (processedTable sampleDateMs sampleParseFloat noBaselineRows) = NaN"
proof -
  have "baselineRow (Fin (3 / 2)) (processedTable sampleDateMs sampleParseFloat noBaselineRows)
       = Some \<lparr>original_time_s = ''01/01/2024 00:01:00'', time_s = Fin 60, time_min_row = Fin 1,
               impedance = NaN, phase = Fin 0, signal = NaN, gas_concentration = NaN\<rparr>"
    by (simp add: baselineRow_def noBaselineRows_def sampleDefs parseDefs js_le_def)
  with C5_baseline_selection[OF noBaseline_result] noBaseline_result show ?thesis by simp
qed

text \<open>
  Claim C6, as amended.  For every row of a processed file the signal is
  \<open>(impedance - baseline) / baseline * 100\<close> when the parsed impedance and the baseline
  are finite, the baseline is not zero and the value is at most \<open>1e4\<close> in absolute
  value; it is NaN otherwise.  With impedances 100, 100, 150, 100 at minutes 0 to 3 and
  reference time 1.5 the baseline is 100 and the signal at minute 2 is 50.
\<close>

theorem C6_signal:
  "(processFile dateMs parseFloat refT prof avail (Some raw) = Some out \<and> i < length out
      \<longrightarrow> signal (out ! i)
           = (case (impedance (processedTable dateMs parseFloat raw ! i),
                    imp_ref refT (processedTable dateMs parseFloat raw)) of
                (Fin z, Fin b) \<Rightarrow>
                  if b \<noteq> 0 \<and> \<bar>(z - b) / b * 100\<bar> \<le> 10000
                  then Fin ((z - b) / b * 100) else NaN
              | _ \<Rightarrow> NaN))
   \<and> imp_ref (Fin (3 / 2)) (processedTable sampleDateMs sampleParseFloat scenarioRows) = Fin 100
   \<and> map_option (map (\<lambda>r. (time_min_row r, impedance r, signal r)))
        (processFile sampleDateMs sampleParseFloat (Fin (3 / 2)) [] False (Some scenarioRows))
       = Some [(Fin 0, Fin 100, Fin 0), (Fin 1, Fin 100, Fin 0), (Fin 2, Fin 150, Fin 50),
               (Fin 3, Fin 100, Fin 0)]"
proof (intro conjI impI)
  assume a: "processFile dateMs parseFloat refT prof avail (Some raw) = Some out \<and> i < length out"
  let ?table = "processedTable dateMs parseFloat raw"
  from a have out: "out = map (finishRow (imp_ref refT ?table) avail prof) ?table"
    and i: "i < length ?table"
    by (auto simp: processFile_Some)
  have "signal (out ! i) = signal (finishRow (imp_ref refT ?table) avail prof (?table ! i))"
    using i by (simp add: out)
  also have "\<dots> = (case (impedance (?table ! i), imp_ref refT ?table) of
                (Fin z, Fin b) \<Rightarrow>
                  if b \<noteq> 0 \<and> \<bar>(z - b) / b * 100\<bar> \<le> 10000
                  then Fin ((z - b) / b * 100) else NaN
              | _ \<Rightarrow> NaN)"
    by (cases "impedance (?table ! i)"; cases "imp_ref refT ?table")
       (auto simp: finishRow_signal js_sub_def js_neq_def js_gt_def signedInf_def)
  finally show "signal (out ! i) = (case (impedance (?table ! i), imp_ref refT ?table) of
                (Fin z, Fin b) \<Rightarrow>
                  if b \<noteq> 0 \<and> \<bar>(z - b) / b * 100\<bar> \<le> 10000
                  then Fin ((z - b) / b * 100) else NaN
              | _ \<Rightarrow> NaN)" .
next
  show "imp_ref (Fin (3 / 2)) (processedTable sampleDateMs sampleParseFloat scenarioRows) = Fin 100"
    by (rule scenario_imp_ref)
next
  show "map_option (map (\<lambda>r. (time_min_row r, impedance r, signal r)))
        (processFile sampleDateMs sampleParseFloat (Fin (3 / 2)) [] False (Some scenarioRows))
       = Some [(Fin 0, Fin 100, Fin 0), (Fin 1, Fin 100, Fin 0), (Fin 2, Fin 150, Fin 50),
               (Fin 3, Fin 100, Fin 0)]"
    by (simp add: scenario_result)
qed


theorem C6_signal_witness:
  "processFile sampleDateMs sampleParseFloat (Fin 0) [] False (Some outlierRows)
     = Some [\<lparr>original_time_s = ''01/01/2024 00:00:00'', time_s = Fin 0, time_min_row = Fin 0,
               impedance = Fin 1, phase = Fin 0, signal = Fin 0, gas_concentration = NaN\<rparr>,
             \<lparr>original_time_s = ''01/01/2024 00:01:00'', time_s = Fin 60, time_min_row = Fin 1,
               impedance = Fin 1000, phase = Fin 0, signal = NaN, gas_concentration = NaN\<rparr>]
   \<and> (0::nat) < length [\<lparr>original_time_s = ''01/01/2024 00:00:00'', time_s = Fin 0, time_min_row = Fin 0,
               impedance = Fin 1, phase = Fin 0, signal = Fin 0, gas_concentration = NaN\<rparr>,
             \<lparr>original_time_s = ''01/01/2024 00:01:00'', time_s = Fin 60, time_min_row = Fin 1,
               impedance = Fin 1000, phase = Fin 0, signal = NaN, gas_concentration = NaN\<rparr>]
   \<and> impedance (processedTable sampleDateMs sampleParseFloat outlierRows ! 0) = Fin 1
   \<and> imp_ref (Fin 0) (processedTable sampleDateMs sampleParseFloat outlierRows) = Fin 1
   \<and> signal (\<lparr>original_time_s = ''01/01/2024 00:00:00'', time_s = Fin 0, time_min_row = Fin 0,
               impedance = Fin 1, phase = Fin 0, signal = Fin 0, gas_concentration = NaN\<rparr>)
       = Fin ((1 - 1) / 1 * 100)"
proof -
  have t: "impedance (processedTable sampleDateMs sampleParseFloat outlierRows ! 0) = Fin 1"
    by (simp add: outlierRows_def sampleDefs parseDefs)
  from C6_signal[of sampleDateMs sampleParseFloat "Fin 0" "[]" False outlierRows _ 0]
    outlier_result outlier_imp_ref t
  show ?thesis by simp
qed

text \<open>
  The claim as first stated leaves out the outlier test: with baseline 1 and impedance
  1000 both operands are defined and the formula gives 99900, but the signal of the row is
  NaN.
\<close>

theorem C6_counterexample:
  "processFile sampleDateMs sampleParseFloat (Fin 0) [] False (Some outlierRows)
     = Some [\<lparr>original_time_s = ''01/01/2024 00:00:00'', time_s = Fin 0, time_min_row = Fin 0,
               impedance = Fin 1, phase = Fin 0, signal = Fin 0, gas_concentration = NaN\<rparr>,
             \<lparr>original_time_s = ''01/01/2024 00:01:00'', time_s = Fin 60, time_min_row = Fin 1,
               impedance = Fin 1000, phase = Fin 0, signal = NaN, gas_concentration = NaN\<rparr>]
   \<and> imp_ref (Fin 0) (processedTable sampleDateMs sampleParseFloat outlierRows) = Fin 1
   \<and> js_mul (js_div (js_sub (Fin 1000) (Fin 1)) (Fin 1)) (Fin 100) = Fin 99900"
  by (simp add: outlier_result outlier_imp_ref js_sub_def)

text \<open>
  Claim C7, as amended.  In every processed file an impedance greater than \<open>1e12\<close>
  (a signed comparison, without absolute value) is replaced by NaN and other impedances are
  kept; a signal whose absolute value is greater than \<open>1e4\<close> is replaced by NaN and
  other signals are kept as assigned.  So no impedance of the file exceeds \<open>1e12\<close> and
  no signal exceeds \<open>1e4\<close> in absolute value.
\<close>

theorem C7_outlier_suppression:
  "processFile dateMs parseFloat refT prof avail (Some raw) = Some out \<and> i < length out
     \<longrightarrow> impedance (out ! i)
           = (if js_gt (impedance (processedTable dateMs parseFloat raw ! i)) (Fin 1000000000000)
              then NaN else impedance (processedTable dateMs parseFloat raw ! i))
         \<and> signal (out ! i)
           = (if js_gt (js_abs (assignedSignal
                                  (imp_ref refT (processedTable dateMs parseFloat raw))
                                  (impedance (processedTable dateMs parseFloat raw ! i))))
                   (Fin 10000)
              then NaN
              else assignedSignal (imp_ref refT (processedTable dateMs parseFloat raw))
                     (impedance (processedTable dateMs parseFloat raw ! i)))
         \<and> \<not> js_gt (impedance (out ! i)) (Fin 1000000000000)
         \<and> \<not> js_gt (js_abs (signal (out ! i))) (Fin 10000)"
proof
  assume a: "processFile dateMs parseFloat refT prof avail (Some raw) = Some out \<and> i < length out"
  let ?table = "processedTable dateMs parseFloat raw"
  from a have out: "out = map (finishRow (imp_ref refT ?table) avail prof) ?table"
    and i: "i < length ?table"
    by (auto simp: processFile_Some)
  have row: "out ! i = finishRow (imp_ref refT ?table) avail prof (?table ! i)"
    using i by (simp add: out)
  have sig: "signal (out ! i)
           = (if js_gt (js_abs (assignedSignal (imp_ref refT ?table) (impedance (?table ! i))))
                   (Fin 10000)
              then NaN
              else assignedSignal (imp_ref refT ?table) (impedance (?table ! i)))"
    unfolding row by (simp add: finishRow_def assignedSignal_def Let_def)
  have rest: "impedance (out ! i)
           = (if js_gt (impedance (?table ! i)) (Fin 1000000000000)
              then NaN else impedance (?table ! i))
         \<and> \<not> js_gt (impedance (out ! i)) (Fin 1000000000000)
         \<and> \<not> js_gt (js_abs (signal (out ! i))) (Fin 10000)"
    unfolding row by (simp add: finishRow_impedance finishRow_signal js_gt_def)
  from sig rest
  show "impedance (out ! i)
           = (if js_gt (impedance (?table ! i)) (Fin 1000000000000)
              then NaN else impedance (?table ! i))
         \<and> signal (out ! i)
           = (if js_gt (js_abs (assignedSignal (imp_ref refT ?table) (impedance (?table ! i))))
                   (Fin 10000)
              then NaN
              else assignedSignal (imp_ref refT ?table) (impedance (?table ! i)))
         \<and> \<not> js_gt (impedance (out ! i)) (Fin 1000000000000)
         \<and> \<not> js_gt (js_abs (signal (out ! i))) (Fin 10000)"
    by blast
qed

theorem C7_outlier_suppression_witness:
  "processFile sampleDateMs sampleParseFloat (Fin 0) [] False (Some overflowRows)
     = Some [\<lparr>original_time_s = ''01/01/2024 00:00:00'', time_s = Fin 0, time_min_row = Fin 0,
               impedance = Fin 100, phase = Fin 0, signal = Fin 0, gas_concentration = NaN\<rparr>,
             \<lparr>original_time_s = ''01/01/2024 00:01:00'', time_s = Fin 60, time_min_row = Fin 1,
               impedance = NaN, phase = Fin 0, signal = NaN, gas_concentration = NaN\<rparr>]
   \<and> impedance (processedTable sampleDateMs sampleParseFloat overflowRows ! 1) = Fin 3000000000000
   \<and> js_gt (Fin 3000000000000) (Fin 1000000000000)
   \<and> imp_ref (Fin 0) (processedTable sampleDateMs sampleParseFloat overflowRows) = Fin 100
   \<and> assignedSignal (Fin 100) (Fin 3000000000000) = Fin 2999999999900
   \<and> js_gt (js_abs (Fin 2999999999900)) (Fin 10000)"
proof -
  have t: "impedance (processedTable sampleDateMs sampleParseFloat overflowRows ! 1)
             = Fin 3000000000000"
    by (simp add: overflowRows_def sampleDefs parseDefs)
  have s: "assignedSignal (Fin 100) (Fin 3000000000000) = Fin 2999999999900"
    by (simp add: assignedSignal_def js_sub_def js_neq_def)
  from C7_outlier_suppression[of sampleDateMs sampleParseFloat "Fin 0" "[]" False overflowRows _ 1]
    overflow_result overflow_imp_ref t s
  show ?thesis by (simp add: js_gt_def)
qed

text \<open>
  An impedance of \<open>-2e12\<close> has magnitude above \<open>1e12\<close> and is kept.
\<close>

theorem C7_counterexample:
  "processFile sampleDateMs sampleParseFloat (Fin 0) [] False (Some negativeRows)
     = Some [\<lparr>original_time_s = ''01/01/2024 00:00:00'', time_s = Fin 0, time_min_row = Fin 0,
               impedance = Fin 100, phase = Fin 0, signal = Fin 0, gas_concentration = NaN\<rparr>,
             \<lparr>original_time_s = ''01/01/2024 00:01:00'', time_s = Fin 60, time_min_row = Fin 1,
               impedance = Fin (- 2000000000000), phase = Fin 0, signal = NaN,
               gas_concentration = NaN\<rparr>]
   \<and> js_gt (js_abs (Fin (- 2000000000000))) (Fin 1000000000000)"
  by (simp add: negative_result js_gt_def)

text \<open>
  Claim C8, as amended.  In a processed file every input row gives one reading; a row with
  fewer than nine columns gives a fully undefined reading and the other rows are read as
  usual.  A file whose first row is short is skipped as a whole: it yields no table, and
  the remaining files are processed.
\<close>

theorem C8_short_rows:
  "(processFile dateMs parseFloat refT prof avail (Some raw) = Some out
      \<longrightarrow> length out = length raw
          \<and> (\<forall>i<length raw.
                if length (raw ! i) < minRequiredCols then allUndefined (out ! i)
                else original_time_s (out ! i) = raw ! i ! timeColIdx
                     \<and> phase (out ! i) = parseFloat (raw ! i ! phaseColIdx)))
   \<and> (raw \<noteq> [] \<and> length (hd raw) < minRequiredCols
      \<longrightarrow> processFile dateMs parseFloat refT prof avail (Some raw) = None
          \<and> processAllTimeSeriesFiles dateMs parseFloat refT prof avail
               (\<lparr>effectiveFileName = name, parsedCsv = Some raw\<rparr> # fileItems)
             = processAllTimeSeriesFiles dateMs parseFloat refT prof avail fileItems)"
proof (intro conjI impI)
  assume a: "processFile dateMs parseFloat refT prof avail (Some raw) = Some out"
  let ?table = "processedTable dateMs parseFloat raw"
  let ?t0 = "msOf (dateMs (hd raw ! timeColIdx))"
  from a have out: "out = map (finishRow (imp_ref refT ?table) avail prof) ?table"
    by (simp add: processFile_Some)
  then show len: "length out = length raw" by (simp add: length_processedTable)
  show "\<forall>i<length raw.
          if length (raw ! i) < minRequiredCols then allUndefined (out ! i)
          else original_time_s (out ! i) = raw ! i ! timeColIdx
               \<and> phase (out ! i) = parseFloat (raw ! i ! phaseColIdx)"
  proof (intro allI impI)
    fix i assume i: "i < length raw"
    then have row: "out ! i = finishRow (imp_ref refT ?table) avail prof
                               (parseRow dateMs parseFloat ?t0 (raw ! i))"
      by (simp add: out processedTable_map)
    show "if length (raw ! i) < minRequiredCols then allUndefined (out ! i)
          else original_time_s (out ! i) = raw ! i ! timeColIdx
               \<and> phase (out ! i) = parseFloat (raw ! i ! phaseColIdx)"
      unfolding row
      by (simp add: finishRow_undefined parseRow_short finishRow_fields parseRow_full)
  qed
next
  assume b: "raw \<noteq> [] \<and> length (hd raw) < minRequiredCols"
  then show none: "processFile dateMs parseFloat refT prof avail (Some raw) = None"
    by (simp add: processFile_None)
  then show "processAllTimeSeriesFiles dateMs parseFloat refT prof avail
               (\<lparr>effectiveFileName = name, parsedCsv = Some raw\<rparr> # fileItems)
             = processAllTimeSeriesFiles dateMs parseFloat refT prof avail fileItems"
    by simp
qed

theorem C8_short_rows_witness:
  "processFile sampleDateMs sampleParseFloat (Fin 0) [] False (Some shortRowRows)
     = Some [\<lparr>original_time_s = ''01/01/2024 00:00:00'', time_s = Fin 0, time_min_row = Fin 0,
               impedance = Fin 100, phase = Fin 0, signal = Fin 0, gas_concentration = NaN\<rparr>,
             \<lparr>original_time_s = ''01/01/2024 00:01:00'', time_s = NaN, time_min_row = NaN,
               impedance = NaN, phase = NaN, signal = NaN, gas_concentration = NaN\<rparr>,
             \<lparr>original_time_s = ''01/01/2024 00:02:00'', time_s = Fin 120, time_min_row = Fin 2,
               impedance = Fin 150, phase = Fin 0, signal = Fin 50, gas_concentration = NaN\<rparr>]
   \<and> length (shortRowRows ! 1) < minRequiredCols
   \<and> shortFirstRows \<noteq> [] \<and> length (hd shortFirstRows) < minRequiredCols
   \<and> processAllTimeSeriesFiles sampleDateMs sampleParseFloat (Fin 0) [] False
        [\<lparr>effectiveFileName = ''sensor1.csv'', parsedCsv = Some shortFirstRows\<rparr>] = []"
proof -
  have h: "shortFirstRows \<noteq> [] \<and> length (hd shortFirstRows) < minRequiredCols"
    "length (shortRowRows ! 1) < minRequiredCols"
    by (simp_all add: shortFirstRows_def shortRowRows_def colDefs)
  from C8_short_rows[of sampleDateMs sampleParseFloat "Fin 0" "[]" False shortFirstRows _
         "''sensor1.csv''" "[]"] h shortRow_result
  show ?thesis by simp
qed

text \<open>
  A short first row is not recorded: the file is abandoned.
\<close>

theorem C8_counterexample:
  "length (hd shortFirstRows) < minRequiredCols
   \<and> processAllTimeSeriesFiles sampleDateMs sampleParseFloat (Fin 0) [] False
        [\<lparr>effectiveFileName = ''sensor1.csv'', parsedCsv = Some shortFirstRows\<rparr>] = []"
proof
  show "length (hd shortFirstRows) < minRequiredCols"
    by (simp add: shortFirstRows_def colDefs)
  show "processAllTimeSeriesFiles sampleDateMs sampleParseFloat (Fin 0) [] False
          [\<lparr>effectiveFileName = ''sensor1.csv'', parsedCsv = Some shortFirstRows\<rparr>] = []"
    by (simp add: shortFirst_result)
qed

end
